theory Spec2Isabelle
  imports Complex_Main
begin

section \<open>Numeric arrays\<close>

text \<open>
  The library (\<^verbatim>\<open>src/ai.py\<close>) computes on numpy arrays of floats. A one-dimensional array
  is a list of reals, a two-dimensional array the list of its rows. Floating-point numbers
  are idealised as reals: there is no rounding, no \<^verbatim>\<open>inf\<close> and no \<^verbatim>\<open>nan\<close>. Arrays are
  values: an operation that numpy performs in place returns the new contents. A matrix
  with no rows has no column count in this representation, so layers with zero neurons
  are outside the model (the well-formedness predicate below asks for positive counts).
\<close>

type_synonym vec = "real list"
type_synonym mat = "real list list"

datatype ndarray = Array1 vec | Array2 mat

text \<open>
  Python exceptions. \<open>ValueError\<close> carries the message, since the library and numpy both
  raise it. \<open>NaN\<close> is not an exception: it stands for numpy returning \<^verbatim>\<open>nan\<close> (the mean of
  an empty array), which a real number cannot represent.
\<close>

datatype error =
    ValueError string
  | IndexError
  | TypeError
  | AttributeError
  | AxisError
  | ZeroDivisionError
  | NaN

definition broadcast_msg :: string where
  "broadcast_msg = ''operands could not be broadcast together''"

definition not_aligned_msg :: string where
  "not_aligned_msg = ''shapes not aligned''"

definition input_length_msg :: string where
  "input_length_msg =
     ''The length of input_activations must be the same as the number of Neurons in the input Layer!''"

definition target_length_msg :: string where
  "target_length_msg =
     ''The length of targets must be the same as count of the Neurons in the output Layer!''"

text \<open>\<^verbatim>\<open>np.clip(x, lo, hi)\<close> is \<^verbatim>\<open>minimum(hi, maximum(x, lo))\<close>, elementwise.\<close>

definition clip1 :: "real \<Rightarrow> real \<Rightarrow> real \<Rightarrow> real" where
  "clip1 lo hi x = min hi (max x lo)"

definition np_clip :: "real \<Rightarrow> real \<Rightarrow> vec \<Rightarrow> vec" where
  "np_clip lo hi xs = map (clip1 lo hi) xs"

definition np_clip2 :: "real \<Rightarrow> real \<Rightarrow> mat \<Rightarrow> mat" where
  "np_clip2 lo hi m = map (np_clip lo hi) m"

text \<open>
  A binary elementwise operation on two one-dimensional arrays follows numpy's
  broadcasting: equal lengths pair up, an operand of length 1 is stretched, anything
  else raises.
\<close>

definition broadcast1 :: "(real \<Rightarrow> real \<Rightarrow> real) \<Rightarrow> vec \<Rightarrow> vec \<Rightarrow> error + vec" where
  "broadcast1 f xs ys =
     (if length xs = length ys then Inr (map2 f xs ys)
      else if length ys = 1 then Inr (map (\<lambda>x. f x (hd ys)) xs)
      else if length xs = 1 then Inr (map (\<lambda>y. f (hd xs) y) ys)
      else Inl (ValueError broadcast_msg))"

text \<open>
  An in-place operation \<^verbatim>\<open>a op= b\<close> keeps the shape of \<^verbatim>\<open>a\<close>: \<^verbatim>\<open>b\<close> has the same
  length or length 1, otherwise numpy raises.
\<close>

definition inplace1 :: "(real \<Rightarrow> real \<Rightarrow> real) \<Rightarrow> vec \<Rightarrow> vec \<Rightarrow> error + vec" where
  "inplace1 f xs ys =
     (if length ys = length xs then Inr (map2 f xs ys)
      else if length ys = 1 then Inr (map (\<lambda>x. f x (hd ys)) xs)
      else Inl (ValueError broadcast_msg))"

fun inplace_rows :: "(real \<Rightarrow> real \<Rightarrow> real) \<Rightarrow> mat \<Rightarrow> mat \<Rightarrow> error + mat" where
  "inplace_rows f [] bs = Inr []"
| "inplace_rows f (a # as) [] = Inl (ValueError broadcast_msg)"
| "inplace_rows f (a # as) (b # bs) =
     (case inplace1 f a b of
        Inl e \<Rightarrow> Inl e
      | Inr r \<Rightarrow> (case inplace_rows f as bs of Inl e \<Rightarrow> Inl e | Inr rs \<Rightarrow> Inr (r # rs)))"

definition inplace2 :: "(real \<Rightarrow> real \<Rightarrow> real) \<Rightarrow> mat \<Rightarrow> mat \<Rightarrow> error + mat" where
  "inplace2 f a b =
     (if length b = length a then inplace_rows f a b
      else if length b = 1 then inplace_rows f a (replicate (length a) (hd b))
      else Inl (ValueError broadcast_msg))"

text \<open>\<^verbatim>\<open>W.dot(a)\<close> for a matrix and a vector: every row must be as long as the vector.\<close>

definition np_dot :: "mat \<Rightarrow> vec \<Rightarrow> error + vec" where
  "np_dot w a =
     (if list_all (\<lambda>r. length r = length a) w
      then Inr (map (\<lambda>r. sum_list (map2 (*) r a)) w)
      else Inl (ValueError not_aligned_msg))"

definition np_outer :: "vec \<Rightarrow> vec \<Rightarrow> mat" where
  "np_outer a b = map (\<lambda>x. map (\<lambda>y. x * y) b) a"

text \<open>\<^verbatim>\<open>W.T\<close>: the columns of a rectangular matrix.\<close>

definition np_T :: "mat \<Rightarrow> mat" where
  "np_T w = (case w of [] \<Rightarrow> [] | r # _ \<Rightarrow> map (\<lambda>j. map (\<lambda>row. row ! j) w) [0..<length r])"

text \<open>\<^verbatim>\<open>np.sum(x, axis=1)\<close> needs a second axis.\<close>

fun np_sum_axis1 :: "ndarray \<Rightarrow> error + vec" where
  "np_sum_axis1 (Array1 v) = Inl AxisError"
| "np_sum_axis1 (Array2 m) = Inr (map sum_list m)"

definition np_mean :: "vec \<Rightarrow> error + real" where
  "np_mean v = (if v = [] then Inl NaN else Inr (sum_list v / real (length v)))"

section \<open>Activation functions\<close>

datatype ActivationFunction = Sigmoid | ReLU | LeakyReLU

definition leak :: real where
  "leak = 1 / 10"

fun act_call :: "ActivationFunction \<Rightarrow> vec \<Rightarrow> vec" where
  "act_call Sigmoid x = map (\<lambda>v. 1 / (1 + exp (- v))) (np_clip (- 709) 709 x)"
| "act_call ReLU x = map (\<lambda>v. max 0 v) x"
| "act_call LeakyReLU x = map (\<lambda>v. if v > 0 then v else v * leak) x"

fun act_derivative :: "ActivationFunction \<Rightarrow> vec \<Rightarrow> vec" where
  "act_derivative Sigmoid x = map (\<lambda>s. s * (1 - s)) (act_call Sigmoid x)"
| "act_derivative ReLU x = map (\<lambda>v. if v > 0 then 1 else 0) x"
| "act_derivative LeakyReLU x = map (\<lambda>v. if v > 0 then 1 else leak) x"

definition default_activation :: ActivationFunction where
  "default_activation = Sigmoid"

section \<open>Loss functions\<close>

datatype LossFunction =
  MeanSquareError | MeanAbsoluteError | BinaryCrossEntropy | CategoricalCrossEntropy

definition clip_eps :: "vec \<Rightarrow> vec" where
  "clip_eps p = np_clip (1 / 10 ^ 15) (1 - 1 / 10 ^ 15) p"

text \<open>
  The network hands its loss function the output layer's activations and the targets,
  both one-dimensional. \<open>CategoricalCrossEntropy\<close> sums over \<^verbatim>\<open>axis=1\<close>.
\<close>

fun loss_call :: "LossFunction \<Rightarrow> vec \<Rightarrow> vec \<Rightarrow> error + vec" where
  "loss_call MeanSquareError p t = broadcast1 (\<lambda>a b. (a - b) ^ 2) p t"
| "loss_call MeanAbsoluteError p t = broadcast1 (\<lambda>a b. \<bar>a - b\<bar>) p t"
| "loss_call BinaryCrossEntropy p t =
     broadcast1 (\<lambda>a b. - (b * ln a + (1 - b) * ln (1 - a))) (clip_eps p) t"
| "loss_call CategoricalCrossEntropy p t =
     (case broadcast1 (\<lambda>a b. b * ln a) (clip_eps p) t of
        Inl e \<Rightarrow> Inl e
      | Inr v \<Rightarrow> (case np_sum_axis1 (Array1 v) of
                   Inl e \<Rightarrow> Inl e
                 | Inr s \<Rightarrow> Inr (map uminus s)))"

fun loss_derivative :: "LossFunction \<Rightarrow> vec \<Rightarrow> vec \<Rightarrow> error + vec" where
  "loss_derivative MeanSquareError p t = broadcast1 (\<lambda>a b. 2 * (a - b)) p t"
| "loss_derivative MeanAbsoluteError p t = broadcast1 (\<lambda>a b. if a > b then 1 else - 1) p t"
| "loss_derivative BinaryCrossEntropy p t =
     broadcast1 (\<lambda>a b. (a - b) / (a * (1 - a))) (clip_eps p) t"
| "loss_derivative CategoricalCrossEntropy p t =
     broadcast1 (\<lambda>a b. - b / a) (clip_eps p) t"

definition loss_cost :: "LossFunction \<Rightarrow> vec \<Rightarrow> vec \<Rightarrow> error + real" where
  "loss_cost l p t = (case loss_call l p t of Inl e \<Rightarrow> Inl e | Inr v \<Rightarrow> np_mean v)"

definition default_loss :: LossFunction where
  "default_loss = MeanSquareError"

section \<open>Layers\<close>

text \<open>
  A layer. The back-reference \<^verbatim>\<open>previous_layer\<close> of the source is the layer's
  predecessor in the network's list (the constructor links them in that order), so the
  operations below take the predecessor as an argument: \<open>None\<close> for the input layer.
  The input layer has no weights and no biases (\<open>None\<close>), and the gradient fields are
  \<open>None\<close> until a backward pass sets them. The bias gradient has no field of its own:
  it is \<open>z_grad\<close>.
\<close>

record Layer =
  neuron_count :: nat
  activation_func :: ActivationFunction
  weights :: "mat option"
  biases :: "vec option"
  z :: vec
  activations :: vec
  a_grad :: "vec option"
  z_grad :: "vec option"
  w_grad :: "mat option"

fun forward :: "Layer option \<Rightarrow> Layer \<Rightarrow> error + Layer" where
  "forward None l = Inr l"
| "forward (Some p) l =
     (case weights l of
        None \<Rightarrow> Inl AttributeError
      | Some w \<Rightarrow>
         (case np_dot w (activations p) of
            Inl e \<Rightarrow> Inl e
          | Inr d \<Rightarrow>
             (case biases l of
                None \<Rightarrow> Inl TypeError
              | Some b \<Rightarrow>
                 (case broadcast1 (+) d b of
                    Inl e \<Rightarrow> Inl e
                  | Inr s \<Rightarrow>
                      Inr (l\<lparr>z := s, activations := act_call (activation_func l) s\<rparr>)))))"

text \<open>
  \<open>backward\<close> returns the predecessor and the layer as they are when it returns or
  raises, and the exception if it raised.
\<close>

fun backward :: "Layer option \<Rightarrow> Layer \<Rightarrow> Layer option \<times> Layer \<times> error option" where
  "backward None l = (None, l, None)"
| "backward (Some p) l =
     (let d = act_derivative (activation_func l) (z l);
          l1 = l\<lparr>z_grad := Some d\<rparr>
      in case a_grad l1 of
           None \<Rightarrow> (Some p, l1, Some TypeError)
         | Some g \<Rightarrow>
            (case inplace1 (*) d g of
               Inl e \<Rightarrow> (Some p, l1, Some e)
             | Inr zg \<Rightarrow>
                (let l2 = l1\<lparr>z_grad := Some zg\<rparr>;
                     l3 = l2\<lparr>w_grad := Some (np_outer zg (activations p))\<rparr>
                 in case weights l3 of
                      None \<Rightarrow> (Some p, l3, Some AttributeError)
                    | Some w \<Rightarrow>
                       (case np_dot (np_T w) zg of
                          Inl e \<Rightarrow> (Some p, l3, Some e)
                        | Inr ag \<Rightarrow> (Some (p\<lparr>a_grad := Some ag\<rparr>), l3, None)))))"

section \<open>The network\<close>

text \<open>
  The objects that \<open>load\<close> can obtain from a class name and hand to the constructor: an
  activation function, a loss function, an instance of \<^verbatim>\<open>ABC\<close>, or \<^verbatim>\<open>None\<close>. The field
  \<open>loss_func\<close> holds any of them, since the constructor stores what it is given.
\<close>

datatype py_object =
  Activation ActivationFunction | Loss LossFunction | ABC_instance | PyNone

record NeuralNetwork =
  loss_func :: py_object
  layers :: "Layer list"
  cost :: real

text \<open>
  The loop of \<open>predict\<close> after the input layer: each layer's forward pass reads the
  activations its predecessor has just computed. The layers come back as they are when
  the loop ends or raises.
\<close>

fun forward_layers :: "Layer \<Rightarrow> Layer list \<Rightarrow> Layer list \<times> error option" where
  "forward_layers p [] = ([], None)"
| "forward_layers p (l # ls) =
     (case forward (Some p) l of
        Inl e \<Rightarrow> (l # ls, Some e)
      | Inr l' \<Rightarrow> (case forward_layers l' ls of (ls', r) \<Rightarrow> (l' # ls', r)))"

definition predict :: "NeuralNetwork \<Rightarrow> vec \<Rightarrow> NeuralNetwork \<times> (error + vec)" where
  "predict nn inputs =
     (case layers nn of
        [] \<Rightarrow> (nn, Inl IndexError)
      | l0 # ls \<Rightarrow>
         if length (activations l0) \<noteq> length inputs
         then (nn, Inl (ValueError input_length_msg))
         else
           (let l0' = l0\<lparr>activations := inputs\<rparr>
            in case forward_layers l0' ls of
                 (ls', Some e) \<Rightarrow> (nn\<lparr>layers := l0' # ls'\<rparr>, Inl e)
               | (ls', None) \<Rightarrow>
                   (nn\<lparr>layers := l0' # ls'\<rparr>, Inr (activations (last (l0' # ls'))))))"

definition current_cost :: "NeuralNetwork \<Rightarrow> vec \<Rightarrow> error + real" where
  "current_cost nn targets =
     (case layers nn of
        [] \<Rightarrow> Inl IndexError
      | _ # _ \<Rightarrow>
         (let predictions = activations (last (layers nn))
          in if length predictions \<noteq> length targets
             then Inl (ValueError target_length_msg)
             else (case loss_func nn of
                     Loss f \<Rightarrow> loss_cost f predictions targets
                   | _ \<Rightarrow> Inl AttributeError)))"

text \<open>
  The loop of \<open>backprop\<close> walks the layers from the output to the input. Its argument
  is the reversed list: the head is the layer whose \<open>backward\<close> runs next, the element
  after it is that layer's predecessor.
\<close>

fun backward_rev :: "Layer list \<Rightarrow> Layer list \<times> error option" where
  "backward_rev [] = ([], None)"
| "backward_rev [l] = (case backward None l of (_, l', r) \<Rightarrow> ([l'], r))"
| "backward_rev (l # p # ps) =
     (case backward (Some p) l of
        (po, l', Some e) \<Rightarrow> (l' # (case po of None \<Rightarrow> p | Some p' \<Rightarrow> p') # ps, Some e)
      | (po, l', None) \<Rightarrow>
          (case backward_rev ((case po of None \<Rightarrow> p | Some p' \<Rightarrow> p') # ps) of
             (rs, r) \<Rightarrow> (l' # rs, r)))"

type_synonym gradient = "(mat \<times> vec) list"

text \<open>
  The gradient is read off the layers that have a predecessor. A gradient field that
  is still \<open>None\<close> cannot occur after the backward loop has completed (lemma
  \<open>backward_rev_grads\<close>); the branch is there to keep the function total.
\<close>

fun collect_gradient :: "Layer list \<Rightarrow> error + gradient" where
  "collect_gradient [] = Inr []"
| "collect_gradient (l # ls) =
     (case (w_grad l, z_grad l) of
        (Some w, Some b) \<Rightarrow>
          (case collect_gradient ls of Inl e \<Rightarrow> Inl e | Inr g \<Rightarrow> Inr ((w, b) # g))
      | _ \<Rightarrow> Inl TypeError)"

text \<open>
  An activation function stored as \<open>loss_func\<close> has a method \<^verbatim>\<open>derivative\<close>, but of one
  argument: the call with two raises \<^verbatim>\<open>TypeError\<close>. The other objects have no such method.
\<close>

definition backprop :: "NeuralNetwork \<Rightarrow> vec \<Rightarrow> NeuralNetwork \<times> (error + gradient)" where
  "backprop nn targets =
     (case rev (layers nn) of
        [] \<Rightarrow> (nn, Inl IndexError)
      | output_layer # rest \<Rightarrow>
         (case loss_func nn of
            Loss f \<Rightarrow>
             (case loss_derivative f (activations output_layer) targets of
                Inl e \<Rightarrow> (nn, Inl e)
              | Inr g \<Rightarrow>
                 (case backward_rev (output_layer\<lparr>a_grad := Some g\<rparr> # rest) of
                    (rs, Some e) \<Rightarrow> (nn\<lparr>layers := rev rs\<rparr>, Inl e)
                  | (rs, None) \<Rightarrow>
                      (nn\<lparr>layers := rev rs\<rparr>, collect_gradient (tl (rev rs)))))
          | Activation _ \<Rightarrow> (nn, Inl TypeError)
          | _ \<Rightarrow> (nn, Inl AttributeError)))"

text \<open>
  \<open>update_weights\<close>: the layers after the input layer take the entries of the gradient
  in order. The clipped gradient is written back into the caller's arrays by numpy
  (\<^verbatim>\<open>out=\<close>); the model returns the network only, and takes the gradient arrays to be
  distinct from the network's weights and biases.
\<close>

definition scale2 :: "real \<Rightarrow> mat \<Rightarrow> mat" where
  "scale2 c m = map (map (\<lambda>x. x * c)) m"

fun update_layers :: "Layer list \<Rightarrow> gradient \<Rightarrow> real \<Rightarrow> Layer list \<times> error option" where
  "update_layers [] gr lr = ([], None)"
| "update_layers (l # ls) [] lr = (l # ls, Some IndexError)"
| "update_layers (l # ls) ((weights_grad, biases_grad) # gr) lr =
     (case weights l of
        None \<Rightarrow> (l # ls, Some TypeError)
      | Some w \<Rightarrow>
         (case inplace2 (-) w (scale2 lr (np_clip2 (- 1) 1 weights_grad)) of
            Inl e \<Rightarrow> (l # ls, Some e)
          | Inr w' \<Rightarrow>
             (case biases l of
                None \<Rightarrow> (l\<lparr>weights := Some w'\<rparr> # ls, Some TypeError)
              | Some b \<Rightarrow>
                 (case inplace1 (-) b (map (\<lambda>x. x * lr) (np_clip (- 1) 1 biases_grad)) of
                    Inl e \<Rightarrow> (l\<lparr>weights := Some w'\<rparr> # ls, Some e)
                  | Inr b' \<Rightarrow>
                     (case update_layers ls gr lr of
                        (ls', r) \<Rightarrow> (l\<lparr>weights := Some w', biases := Some b'\<rparr> # ls', r))))))"

definition update_weights ::
  "NeuralNetwork \<Rightarrow> gradient \<Rightarrow> real \<Rightarrow> NeuralNetwork \<times> error option" where
  "update_weights nn gr learning_rate =
     (case layers nn of
        [] \<Rightarrow> (nn, None)
      | l0 # ls \<Rightarrow>
         (case update_layers ls gr learning_rate of
            (ls', r) \<Rightarrow> (nn\<lparr>layers := l0 # ls'\<rparr>, r)))"

section \<open>Training\<close>

text \<open>
  Python's \<^verbatim>\<open>random\<close> module is a stream of raw draws: \<open>randbelow g n\<close> takes the next draw
  modulo \<open>n\<close> and drops it from the stream. \<^verbatim>\<open>random.shuffle\<close> is the standard library's
  loop: for \<open>i\<close> from the last index down to 1, swap \<open>x[i]\<close> with \<open>x[randbelow(i + 1)]\<close>.
\<close>

type_synonym rng = "nat \<Rightarrow> nat"

definition randbelow :: "rng \<Rightarrow> nat \<Rightarrow> nat \<times> rng" where
  "randbelow g n = (g 0 mod n, \<lambda>k. g (Suc k))"

fun shuffle_from :: "nat \<Rightarrow> rng \<Rightarrow> 'a list \<Rightarrow> 'a list \<times> rng" where
  "shuffle_from 0 g xs = (xs, g)"
| "shuffle_from (Suc i) g xs =
     (case randbelow g (Suc (Suc i)) of
        (j, g') \<Rightarrow> shuffle_from i g' (xs[Suc i := xs ! j, j := xs ! Suc i]))"

definition shuffle :: "rng \<Rightarrow> 'a list \<Rightarrow> 'a list \<times> rng" where
  "shuffle g xs = shuffle_from (length xs - 1) g xs"

text \<open>Python's \<^verbatim>\<open>round\<close> to an integer: halves go to the even neighbour.\<close>

definition py_round :: "real \<Rightarrow> int" where
  "py_round x =
     (let f = \<lfloor>x\<rfloor>; d = x - of_int f
      in if d < 1 / 2 then f else if d > 1 / 2 then f + 1 else if even f then f else f + 1)"

text \<open>A binary elementwise operation on two matrices, with numpy's broadcasting.\<close>

fun broadcast_rows :: "(real \<Rightarrow> real \<Rightarrow> real) \<Rightarrow> mat \<Rightarrow> mat \<Rightarrow> error + mat" where
  "broadcast_rows f [] [] = Inr []"
| "broadcast_rows f (a # as) (b # bs) =
     (case broadcast1 f a b of
        Inl e \<Rightarrow> Inl e
      | Inr r \<Rightarrow> (case broadcast_rows f as bs of Inl e \<Rightarrow> Inl e | Inr rs \<Rightarrow> Inr (r # rs)))"
| "broadcast_rows f _ _ = Inl (ValueError broadcast_msg)"

definition broadcast2 :: "(real \<Rightarrow> real \<Rightarrow> real) \<Rightarrow> mat \<Rightarrow> mat \<Rightarrow> error + mat" where
  "broadcast2 f a b =
     (if length a = length b then broadcast_rows f a b
      else if length b = 1 then broadcast_rows f a (replicate (length a) (hd b))
      else if length a = 1 then broadcast_rows f (replicate (length b) (hd a)) b
      else Inl (ValueError broadcast_msg))"

definition empty_dataset_msg :: string where
  "empty_dataset_msg = ''Training dataset is empty.''"

definition validation_split_msg :: string where
  "validation_split_msg = ''Validation split must be between 0 and 1.''"

definition range_step_msg :: string where
  "range_step_msg = ''range() arg 3 must not be zero''"

definition beta1 :: real where
  "beta1 = 9 / 10"

definition beta2 :: real where
  "beta2 = 999 / 1000"

definition epsilon :: real where
  "epsilon = 1 / 10 ^ 8"

definition adam_moment1 :: "real \<Rightarrow> real \<Rightarrow> real" where
  "adam_moment1 m g = beta1 * m + (1 - beta1) * g"

definition adam_moment2 :: "real \<Rightarrow> real \<Rightarrow> real" where
  "adam_moment2 v g = beta2 * v + (1 - beta2) * g ^ 2"

text \<open>The step of one parameter from its updated moments, at time step \<open>t\<close>.\<close>

definition adam_update :: "real \<Rightarrow> nat \<Rightarrow> real \<Rightarrow> real \<Rightarrow> real" where
  "adam_update learning_rate t m v =
     (let m_hat = m / (1 - beta1 ^ t); v_hat = v / (1 - beta2 ^ t)
      in learning_rate * m_hat / (sqrt v_hat + epsilon))"

type_synonym example = "vec \<times> vec"

text \<open>
  The Adam moments start as \<^verbatim>\<open>zeros_like\<close> the weights and biases of the layers that have
  a predecessor. (A layer without weights there would give numpy an object array; the
  model raises at once.)
\<close>

fun zero_moments :: "Layer list \<Rightarrow> error + gradient" where
  "zero_moments [] = Inr []"
| "zero_moments (l # ls) =
     (case (weights l, biases l) of
        (Some w, Some b) \<Rightarrow>
          (case zero_moments ls of
             Inl e \<Rightarrow> Inl e
           | Inr ms \<Rightarrow> Inr ((map (map (\<lambda>_. 0)) w, map (\<lambda>_. 0) b) # ms))
      | _ \<Rightarrow> Inl TypeError)"

text \<open>\<^verbatim>\<open>gradient_sum[i][0] += gradient[i][0]\<close> and the same for the biases, for every \<open>i\<close>.\<close>

fun accumulate :: "gradient \<Rightarrow> gradient \<Rightarrow> error + gradient" where
  "accumulate gradient_sum [] = Inr gradient_sum"
| "accumulate [] (g # gr) = Inl IndexError"
| "accumulate ((s_w, s_b) # gs) ((g_w, g_b) # gr) =
     (case inplace2 (+) s_w g_w of
        Inl e \<Rightarrow> Inl e
      | Inr s_w' \<Rightarrow>
         (case inplace1 (+) s_b g_b of
            Inl e \<Rightarrow> Inl e
          | Inr s_b' \<Rightarrow>
             (case accumulate gs gr of
                Inl e \<Rightarrow> Inl e
              | Inr r \<Rightarrow> Inr ((s_w', s_b') # r))))"

text \<open>
  The examples of one mini-batch: predict, add the cost, backpropagate, and add the
  gradient to the running sum (the first gradient becomes the sum).
\<close>

fun batch_examples ::
  "NeuralNetwork \<Rightarrow> real \<Rightarrow> nat \<Rightarrow> gradient option \<Rightarrow> example list
   \<Rightarrow> NeuralNetwork \<times> (error + real \<times> nat \<times> gradient option)" where
  "batch_examples nn cost_sum count gradient_sum [] = (nn, Inr (cost_sum, count, gradient_sum))"
| "batch_examples nn cost_sum count gradient_sum ((inputs, targets) # batch) =
     (case predict nn inputs of
        (nn1, Inl e) \<Rightarrow> (nn1, Inl e)
      | (nn1, Inr _) \<Rightarrow>
         (case current_cost nn1 targets of
            Inl e \<Rightarrow> (nn1, Inl e)
          | Inr c \<Rightarrow>
             (case backprop nn1 targets of
                (nn2, Inl e) \<Rightarrow> (nn2, Inl e)
              | (nn2, Inr gr) \<Rightarrow>
                 (case (case gradient_sum of
                          Some (s # ss) \<Rightarrow> accumulate (s # ss) gr
                        | _ \<Rightarrow> Inr gr) of
                    Inl e \<Rightarrow> (nn2, Inl e)
                  | Inr gs \<Rightarrow> batch_examples nn2 (cost_sum + c) (Suc count) (Some gs) batch))))"

definition average :: "gradient \<Rightarrow> nat \<Rightarrow> gradient" where
  "average gradient_sum n =
     map (\<lambda>(w, b). (map (map (\<lambda>x. x / real n)) w, map (\<lambda>x. x / real n) b)) gradient_sum"

text \<open>
  One entry of the Adam loop: the new first and second moments of a layer's weights and
  biases, and the steps \<^verbatim>\<open>weight_update\<close> and \<^verbatim>\<open>bias_update\<close> computed from them.
\<close>

definition adam_moments ::
  "real \<Rightarrow> nat \<Rightarrow> mat \<times> vec \<Rightarrow> mat \<times> vec \<Rightarrow> mat \<times> vec
   \<Rightarrow> error + (mat \<times> vec) \<times> (mat \<times> vec) \<times> mat \<times> vec" where
  "adam_moments lr t g m v =
     (case broadcast2 adam_moment1 (fst m) (fst g) of Inl e \<Rightarrow> Inl e | Inr m_w \<Rightarrow>
      case broadcast1 adam_moment1 (snd m) (snd g) of Inl e \<Rightarrow> Inl e | Inr m_b \<Rightarrow>
      case broadcast2 adam_moment2 (fst v) (fst g) of Inl e \<Rightarrow> Inl e | Inr v_w \<Rightarrow>
      case broadcast1 adam_moment2 (snd v) (snd g) of Inl e \<Rightarrow> Inl e | Inr v_b \<Rightarrow>
      case broadcast2 (adam_update lr t) m_w v_w of Inl e \<Rightarrow> Inl e | Inr weight_update \<Rightarrow>
      case broadcast1 (adam_update lr t) m_b v_b of Inl e \<Rightarrow> Inl e | Inr bias_update \<Rightarrow>
        Inr ((m_w, m_b), (v_w, v_b), weight_update, bias_update))"

text \<open>\<^verbatim>\<open>layer.weights -= weight_update\<close>, then \<^verbatim>\<open>layer.biases -= bias_update\<close>.\<close>

definition apply_update :: "Layer \<Rightarrow> mat \<Rightarrow> vec \<Rightarrow> Layer \<times> error option" where
  "apply_update l weight_update bias_update =
     (case weights l of None \<Rightarrow> (l, Some TypeError) | Some w \<Rightarrow>
      case inplace2 (-) w weight_update of Inl e \<Rightarrow> (l, Some e) | Inr w' \<Rightarrow>
      case biases l of None \<Rightarrow> (l\<lparr>weights := Some w'\<rparr>, Some TypeError) | Some b \<Rightarrow>
      case inplace1 (-) b bias_update of
        Inl e \<Rightarrow> (l\<lparr>weights := Some w'\<rparr>, Some e)
      | Inr b' \<Rightarrow> (l\<lparr>weights := Some w', biases := Some b'\<rparr>, None))"

text \<open>
  The Adam loop over the entries of the averaged gradient. The layer list is
  \<^verbatim>\<open>self.layers[1:]\<close>: entry \<open>i\<close> updates layer \<open>i + 1\<close>. The layers come back as they
  are when the loop ends or raises; the moments are locals of \<open>train\<close>.
\<close>

fun adam_layers ::
  "real \<Rightarrow> nat \<Rightarrow> gradient \<Rightarrow> gradient \<Rightarrow> gradient \<Rightarrow> Layer list
   \<Rightarrow> Layer list \<times> (error + gradient \<times> gradient)" where
  "adam_layers lr t [] m_t v_t ls = (ls, Inr (m_t, v_t))"
| "adam_layers lr t (g # gs) [] v_t ls = (ls, Inl IndexError)"
| "adam_layers lr t (g # gs) (m # ms) [] ls = (ls, Inl IndexError)"
| "adam_layers lr t (g # gs) (m # ms) (v # vs) ls =
     (case adam_moments lr t g m v of
        Inl e \<Rightarrow> (ls, Inl e)
      | Inr (m', v', weight_update, bias_update) \<Rightarrow>
         (case ls of
            [] \<Rightarrow> ([], Inl IndexError)
          | l # ls' \<Rightarrow>
             (case apply_update l weight_update bias_update of
                (l', Some e) \<Rightarrow> (l' # ls', Inl e)
              | (l', None) \<Rightarrow>
                 (case adam_layers lr t gs ms vs ls' of
                    (ls'', Inl e) \<Rightarrow> (l' # ls'', Inl e)
                  | (ls'', Inr (ms', vs')) \<Rightarrow> (l' # ls'', Inr (m' # ms', v' # vs'))))))"

text \<open>\<^verbatim>\<open>range(0, n, batch_size)\<close> for a positive batch size.\<close>

definition batch_starts :: "nat \<Rightarrow> nat \<Rightarrow> nat list" where
  "batch_starts n batch_size = map (\<lambda>k. k * batch_size) [0..<(n + batch_size - 1) div batch_size]"

text \<open>
  One mini-batch: its examples, then (unless the batch was empty) the mean gradient, the
  next time step and the Adam loop.
\<close>

definition train_batch ::
  "real \<Rightarrow> example list \<Rightarrow> NeuralNetwork \<Rightarrow> gradient \<Rightarrow> gradient \<Rightarrow> nat \<Rightarrow> real \<Rightarrow> nat
   \<Rightarrow> NeuralNetwork \<times> (error + gradient \<times> gradient \<times> nat \<times> real \<times> nat)" where
  "train_batch lr batch nn m_t v_t t cost_sum count =
     (case batch_examples nn cost_sum count None batch of
        (nn1, Inl e) \<Rightarrow> (nn1, Inl e)
      | (nn1, Inr (cost_sum', count', None)) \<Rightarrow> (nn1, Inr (m_t, v_t, t, cost_sum', count'))
      | (nn1, Inr (cost_sum', count', Some gradient_sum)) \<Rightarrow>
          (case layers nn1 of
             [] \<Rightarrow> (nn1, Inl IndexError)
           | l0 # ls \<Rightarrow>
              (case adam_layers lr (t + 1) (average gradient_sum (length batch)) m_t v_t ls of
                 (ls', Inl e) \<Rightarrow> (nn1\<lparr>layers := l0 # ls'\<rparr>, Inl e)
               | (ls', Inr (m_t', v_t')) \<Rightarrow>
                   (nn1\<lparr>layers := l0 # ls'\<rparr>, Inr (m_t', v_t', t + 1, cost_sum', count')))))"

fun train_batches ::
  "real \<Rightarrow> example list \<Rightarrow> nat \<Rightarrow> nat list \<Rightarrow> NeuralNetwork \<Rightarrow> gradient \<Rightarrow> gradient \<Rightarrow> nat
   \<Rightarrow> real \<Rightarrow> nat \<Rightarrow> NeuralNetwork \<times> (error + gradient \<times> gradient \<times> nat \<times> real \<times> nat)" where
  "train_batches lr training_data batch_size [] nn m_t v_t t cost_sum count =
     (nn, Inr (m_t, v_t, t, cost_sum, count))"
| "train_batches lr training_data batch_size (batch_start # starts) nn m_t v_t t cost_sum count =
     (case train_batch lr (take batch_size (drop batch_start training_data))
             nn m_t v_t t cost_sum count of
        (nn1, Inl e) \<Rightarrow> (nn1, Inl e)
      | (nn1, Inr (m_t', v_t', t', cost_sum', count')) \<Rightarrow>
          train_batches lr training_data batch_size starts nn1 m_t' v_t' t' cost_sum' count')"

text \<open>The validation pass of an epoch: predict and cost, nothing else.\<close>

fun validate ::
  "NeuralNetwork \<Rightarrow> real \<Rightarrow> nat \<Rightarrow> example list \<Rightarrow> NeuralNetwork \<times> (error + real \<times> nat)" where
  "validate nn val_cost_sum val_count [] = (nn, Inr (val_cost_sum, val_count))"
| "validate nn val_cost_sum val_count ((inputs, targets) # rest) =
     (case predict nn inputs of
        (nn1, Inl e) \<Rightarrow> (nn1, Inl e)
      | (nn1, Inr _) \<Rightarrow>
         (case current_cost nn1 targets of
            Inl e \<Rightarrow> (nn1, Inl e)
          | Inr c \<Rightarrow> validate nn1 (val_cost_sum + c) (Suc val_count) rest))"

text \<open>
  One epoch after the reshuffle. A batch size of 0 (an empty training set) makes
  \<^verbatim>\<open>range\<close> raise; an epoch that saw no example, or a validation pass over no example,
  divides by zero. The validation cost is only printed, and the log line is not modelled.
\<close>

definition train_epoch ::
  "real \<Rightarrow> nat \<Rightarrow> real \<Rightarrow> example list \<Rightarrow> example list \<Rightarrow> NeuralNetwork
   \<Rightarrow> gradient \<Rightarrow> gradient \<Rightarrow> nat \<Rightarrow> NeuralNetwork \<times> (error + gradient \<times> gradient \<times> nat)" where
  "train_epoch lr batch_size validation_split training_data validation_data nn m_t v_t t =
     (if batch_size = 0 then (nn, Inl (ValueError range_step_msg))
      else
        (case train_batches lr training_data batch_size
                (batch_starts (length training_data) batch_size) nn m_t v_t t 0 0 of
           (nn1, Inl e) \<Rightarrow> (nn1, Inl e)
         | (nn1, Inr (m_t', v_t', t', cost_sum, count)) \<Rightarrow>
             if count = 0 then (nn1, Inl ZeroDivisionError)
             else
               (let nn2 = nn1\<lparr>cost := of_int (py_round (cost_sum / real count * 10 ^ 6)) / 10 ^ 6\<rparr>
                in if validation_split \<noteq> 0
                   then
                     (case validate nn2 0 0 validation_data of
                        (nn3, Inl e) \<Rightarrow> (nn3, Inl e)
                      | (nn3, Inr (val_cost_sum, val_count)) \<Rightarrow>
                          if val_count = 0 then (nn3, Inl ZeroDivisionError)
                          else (nn3, Inr (m_t', v_t', t')))
                   else (nn2, Inr (m_t', v_t', t')))))"

text \<open>The epochs. The training data is reshuffled in place at the start of every epoch.\<close>

fun train_epochs ::
  "nat \<Rightarrow> real \<Rightarrow> nat \<Rightarrow> real \<Rightarrow> example list \<Rightarrow> example list \<Rightarrow> NeuralNetwork \<Rightarrow> rng
   \<Rightarrow> gradient \<Rightarrow> gradient \<Rightarrow> nat \<Rightarrow> NeuralNetwork \<times> rng \<times> error option" where
  "train_epochs 0 lr batch_size validation_split training_data validation_data nn g m_t v_t t =
     (nn, g, None)"
| "train_epochs (Suc n) lr batch_size validation_split training_data validation_data nn g m_t v_t t =
     (case shuffle g training_data of
        (training_data', g') \<Rightarrow>
          (case train_epoch lr batch_size validation_split training_data' validation_data
                  nn m_t v_t t of
             (nn1, Inl e) \<Rightarrow> (nn1, g', Some e)
           | (nn1, Inr (m_t', v_t', t')) \<Rightarrow>
               train_epochs n lr batch_size validation_split training_data' validation_data
                 nn1 g' m_t' v_t' t'))"

text \<open>
  \<open>train\<close>. The dataset is a list of (inputs, targets) pairs, as the callers build it.
  The result is the network and the random stream as they are when \<open>train\<close> returns or
  raises, and the exception if it raised.
\<close>

definition train ::
  "NeuralNetwork \<Rightarrow> rng \<Rightarrow> example list \<Rightarrow> int \<Rightarrow> int \<Rightarrow> real \<Rightarrow> real
   \<Rightarrow> NeuralNetwork \<times> rng \<times> error option" where
  "train nn g dataset epochs batch_size learning_rate validation_split =
     (if dataset = [] then (nn, g, Some (ValueError empty_dataset_msg))
      else if \<not> (0 \<le> validation_split \<and> validation_split < 1)
      then (nn, g, Some (ValueError validation_split_msg))
      else
        (case zero_moments (tl (layers nn)) of
           Inl e \<Rightarrow> (nn, g, Some e)
         | Inr zeros \<Rightarrow>
            (case shuffle g dataset of
               (dataset', g1) \<Rightarrow>
                 (let split_index =
                        (if validation_split = 0 then length dataset'
                         else nat \<lfloor>(1 - validation_split) * real (length dataset')\<rfloor>);
                      training_data = take split_index dataset';
                      validation_data = drop split_index dataset';
                      batch_size' =
                        (if batch_size \<le> 0 then length training_data else nat batch_size)
                  in train_epochs (nat epochs) learning_rate batch_size' validation_split
                       training_data validation_data nn g1 zeros zeros 0))))"

section \<open>Construction\<close>

text \<open>
  \<^verbatim>\<open>np.random.normal\<close> draws from a stream of standard normal samples: a sample with
  standard deviation \<open>scale\<close> is \<open>scale\<close> times the next draw. A matrix of shape
  \<open>(rows, cols)\<close> takes \<open>rows * cols\<close> draws.
\<close>

type_synonym np_rng = "nat \<Rightarrow> real"

definition np_random_normal :: "np_rng \<Rightarrow> real \<Rightarrow> nat \<Rightarrow> nat \<Rightarrow> mat \<times> np_rng" where
  "np_random_normal g scale rows cols =
     (map (\<lambda>i. map (\<lambda>j. scale * g (i * cols + j)) [0..<cols]) [0..<rows],
      \<lambda>k. g (k + rows * cols))"

text \<open>
  \<open>init_weights\<close>. For \<open>ReLU\<close> and \<open>LeakyReLU\<close> the standard deviation is
  \<^verbatim>\<open>np.sqrt(2.0 / input_size)\<close>, a Python division that raises when \<open>input_size\<close> is 0.
  For \<open>Sigmoid\<close> a size of 0 gives numpy an infinite deviation, which no sample uses:
  the matrix has no rows.
\<close>

fun init_weights :: "ActivationFunction \<Rightarrow> np_rng \<Rightarrow> nat \<Rightarrow> nat \<Rightarrow> error + mat \<times> np_rng" where
  "init_weights Sigmoid g input_size output_size =
     Inr (np_random_normal g (1 / sqrt (real input_size)) input_size output_size)"
| "init_weights ReLU g input_size output_size =
     (if input_size = 0 then Inl ZeroDivisionError
      else (case np_random_normal g (sqrt (2 / real input_size)) input_size output_size of
              (m, g') \<Rightarrow> Inr (map (map abs) m, g')))"
| "init_weights LeakyReLU g input_size output_size =
     (if input_size = 0 then Inl ZeroDivisionError
      else Inr (np_random_normal g (sqrt (2 / real input_size)) input_size output_size))"

text \<open>
  \<open>Layer_init\<close> is \<^verbatim>\<open>Layer.__init__\<close>. A negative neuron count makes numpy raise
  (\<^verbatim>\<open>np.zeros\<close>, or \<^verbatim>\<open>np.random.normal\<close> for a layer with a predecessor). The array of
  \<^verbatim>\<open>Neuron\<close> views is not modelled: a neuron holds no data of its own.
\<close>

definition negative_dimensions_msg :: string where
  "negative_dimensions_msg = ''negative dimensions are not allowed''"

definition Layer_init ::
  "np_rng \<Rightarrow> int \<Rightarrow> Layer option \<Rightarrow> ActivationFunction \<Rightarrow> error + Layer \<times> np_rng" where
  "Layer_init g n previous_layer f =
     (if n < 0 then Inl (ValueError negative_dimensions_msg)
      else
        (case previous_layer of
           None \<Rightarrow>
             Inr (\<lparr>neuron_count = nat n, activation_func = f, weights = None, biases = None,
                   z = replicate (nat n) 0, activations = replicate (nat n) 0,
                   a_grad = None, z_grad = None, w_grad = None\<rparr>, g)
         | Some p \<Rightarrow>
             (case init_weights f g (nat n) (neuron_count p) of
                Inl e \<Rightarrow> Inl e
              | Inr (w, g') \<Rightarrow>
                  Inr (\<lparr>neuron_count = nat n, activation_func = f, weights = Some w,
                        biases = Some (replicate (nat n) 0),
                        z = replicate (nat n) 0, activations = replicate (nat n) 0,
                        a_grad = None, z_grad = None, w_grad = None\<rparr>, g'))))"

definition too_few_layers_msg :: string where
  "too_few_layers_msg =
     ''The number of layers is less than 2, there must be at least 1 input and 1 output layer.''"

definition activation_count_msg :: string where
  "activation_count_msg =
     ''The len(activation_func) must be equal to the number of layers - 1 (input layer doesn't have activation function).''"

text \<open>
  The constructor takes one activation function for all layers or a list of objects
  (\<open>load\<close> passes what the names in the file resolve to). When the object for a layer is
  not an activation function, \<^verbatim>\<open>Layer.__init__\<close> raises \<^verbatim>\<open>AttributeError\<close> as it asks the
  object for \<^verbatim>\<open>init_weights\<close>. The layer sizes are Python integers; numpy refuses a
  negative one.
\<close>

datatype activation_arg = One ActivationFunction | Several "py_object list"

fun build_layers ::
  "np_rng \<Rightarrow> Layer \<Rightarrow> int list \<Rightarrow> py_object list \<Rightarrow> error + Layer list \<times> np_rng" where
  "build_layers g previous_layer [] acts = Inr ([], g)"
| "build_layers g previous_layer (n # ns) [] = Inl IndexError"
| "build_layers g previous_layer (n # ns) (a # acts) =
     (case a of
        Activation f \<Rightarrow>
         (case Layer_init g n (Some previous_layer) f of
            Inl e \<Rightarrow> Inl e
          | Inr (l, g') \<Rightarrow>
             (case build_layers g' l ns acts of
                Inl e \<Rightarrow> Inl e
              | Inr (ls, g'') \<Rightarrow> Inr (l # ls, g'')))
      | _ \<Rightarrow> Inl AttributeError)"

definition NeuralNetwork_init ::
  "np_rng \<Rightarrow> int list \<Rightarrow> activation_arg \<Rightarrow> py_object \<Rightarrow> error + NeuralNetwork \<times> np_rng" where
  "NeuralNetwork_init g layer_neuron_counts activation loss =
     (if length layer_neuron_counts < 2 then Inl (ValueError too_few_layers_msg)
      else
        (let acts = (case activation of
                       One f \<Rightarrow> replicate (length layer_neuron_counts - 1) (Activation f)
                     | Several fs \<Rightarrow> fs)
         in if length acts \<noteq> length layer_neuron_counts - 1
            then Inl (ValueError activation_count_msg)
            else
              (case layer_neuron_counts of
                 [] \<Rightarrow> Inl (ValueError too_few_layers_msg)
               | n0 # ns \<Rightarrow>
                  (case Layer_init g n0 None default_activation of
                     Inl e \<Rightarrow> Inl e
                   | Inr (l0, g0) \<Rightarrow>
                      (case build_layers g0 l0 ns acts of
                         Inl e \<Rightarrow> Inl e
                       | Inr (ls, g') \<Rightarrow>
                           Inr (\<lparr>loss_func = loss, layers = l0 # ls, cost = - 1\<rparr>, g'))))))"

section \<open>Persistence\<close>

text \<open>
  Strings are lists of characters. \<open>split\<close> is \<^verbatim>\<open>str.split(sep)\<close> for a non-empty separator:
  the occurrences of the separator are found from left to right and do not overlap.
  \<open>join\<close> is \<^verbatim>\<open>sep.join(xs)\<close>.
\<close>

definition nl :: char where
  "nl = CHR 0x0A"

definition comma :: char where
  "comma = CHR '',''"

function split :: "string \<Rightarrow> string \<Rightarrow> string list" where
  "split sep [] = [[]]"
| "split sep (c # cs) =
     (if sep \<noteq> [] \<and> take (length sep) (c # cs) = sep
      then [] # split sep (drop (length sep) (c # cs))
      else (case split sep cs of [] \<Rightarrow> [[c]] | x # xs \<Rightarrow> (c # x) # xs))"
  by pat_completeness auto
termination
  by (relation "measure (\<lambda>(sep, s). length s)") auto

fun join :: "string \<Rightarrow> string list \<Rightarrow> string" where
  "join sep [] = []"
| "join sep [x] = x"
| "join sep (x # y # ys) = x @ sep @ join sep (y # ys)"

text \<open>\<open>map_err\<close> is \<^verbatim>\<open>list(map(f, xs))\<close> for an \<open>f\<close> that can raise: the first exception wins.\<close>

fun map_err :: "('a \<Rightarrow> error + 'b) \<Rightarrow> 'a list \<Rightarrow> error + 'b list" where
  "map_err f [] = Inr []"
| "map_err f (x # xs) =
     (case f x of
        Inl e \<Rightarrow> Inl e
      | Inr y \<Rightarrow> (case map_err f xs of Inl e \<Rightarrow> Inl e | Inr ys \<Rightarrow> Inr (y # ys)))"

subsection \<open>Integers as text\<close>

text \<open>
  \<^verbatim>\<open>str(n)\<close> for a natural number, and \<^verbatim>\<open>int(s)\<close> on ASCII text: surrounding whitespace
  is dropped, a sign may come first, and the digits may be separated by single
  underscores.
\<close>

definition digit_char :: "nat \<Rightarrow> char" where
  "digit_char k = ''0123456789'' ! k"

function str_nat :: "nat \<Rightarrow> string" where
  "str_nat n = (if n < 10 then [digit_char n] else str_nat (n div 10) @ [digit_char (n mod 10)])"
  by pat_completeness auto
termination
  by (relation "measure id") auto

declare str_nat.simps [simp del]

definition is_space :: "char \<Rightarrow> bool" where
  "is_space c =
     (c \<in> set [CHR 0x09, CHR 0x0A, CHR 0x0B, CHR 0x0C, CHR 0x0D,
               CHR 0x1C, CHR 0x1D, CHR 0x1E, CHR 0x1F, CHR '' ''])"

definition strip :: "string \<Rightarrow> string" where
  "strip s = rev (dropWhile is_space (rev (dropWhile is_space s)))"

definition is_digit :: "char \<Rightarrow> bool" where
  "is_digit c = (c \<in> set ''0123456789'')"

definition digit_value :: "char \<Rightarrow> nat" where
  "digit_value c =
     (if c = CHR ''1'' then 1 else if c = CHR ''2'' then 2 else if c = CHR ''3'' then 3
      else if c = CHR ''4'' then 4 else if c = CHR ''5'' then 5 else if c = CHR ''6'' then 6
      else if c = CHR ''7'' then 7 else if c = CHR ''8'' then 8 else if c = CHR ''9'' then 9
      else 0)"

fun digits_ok :: "string \<Rightarrow> bool" where
  "digits_ok [] = False"
| "digits_ok [c] = is_digit c"
| "digits_ok (c # d # r) =
     (is_digit c \<and> (if d = CHR ''_'' then digits_ok r else digits_ok (d # r)))"

definition digits_value :: "string \<Rightarrow> nat" where
  "digits_value s = foldl (\<lambda>a c. 10 * a + digit_value c) 0 (filter (\<lambda>c. c \<noteq> CHR ''_'') s)"

definition invalid_int_msg :: string where
  "invalid_int_msg = ''invalid literal for int() with base 10''"

definition py_int :: "string \<Rightarrow> error + int" where
  "py_int s =
     (case strip s of
        [] \<Rightarrow> Inl (ValueError invalid_int_msg)
      | c # r \<Rightarrow>
          (let negative = (c = CHR ''-'');
               body = (if c = CHR ''-'' \<or> c = CHR ''+'' then r else c # r)
           in if digits_ok body
              then Inr (if negative then - int (digits_value body) else int (digits_value body))
              else Inl (ValueError invalid_int_msg)))"

subsection \<open>Class names\<close>

fun activation_name :: "ActivationFunction \<Rightarrow> string" where
  "activation_name Sigmoid = ''Sigmoid''"
| "activation_name ReLU = ''ReLU''"
| "activation_name LeakyReLU = ''LeakyReLU''"

fun loss_name :: "LossFunction \<Rightarrow> string" where
  "loss_name MeanSquareError = ''MeanSquareError''"
| "loss_name MeanAbsoluteError = ''MeanAbsoluteError''"
| "loss_name BinaryCrossEntropy = ''BinaryCrossEntropy''"
| "loss_name CategoricalCrossEntropy = ''CategoricalCrossEntropy''"

text \<open>\<^verbatim>\<open>obj.__class__.__name__\<close>\<close>

fun class_name :: "py_object \<Rightarrow> string" where
  "class_name (Activation f) = activation_name f"
| "class_name (Loss f) = loss_name f"
| "class_name ABC_instance = ''ABC''"
| "class_name PyNone = ''NoneType''"

text \<open>
  \<open>get_class_by_name\<close> looks the name up in the module's globals and instantiates what
  it finds if that is a class. The classes of the module are the three activation
  functions, the four loss functions, \<^verbatim>\<open>ABC\<close> (which can be instantiated), the two
  abstract base classes (which cannot: \<^verbatim>\<open>TypeError\<close>), and \<^verbatim>\<open>NeuralNetwork\<close>, \<^verbatim>\<open>Layer\<close> and
  \<^verbatim>\<open>Neuron\<close>, whose constructors need arguments (\<^verbatim>\<open>TypeError\<close>). Every other name gives
  \<^verbatim>\<open>None\<close>.
\<close>

definition get_class_by_name :: "string \<Rightarrow> error + py_object" where
  "get_class_by_name class_name' =
     (if class_name' = ''Sigmoid'' then Inr (Activation Sigmoid)
      else if class_name' = ''ReLU'' then Inr (Activation ReLU)
      else if class_name' = ''LeakyReLU'' then Inr (Activation LeakyReLU)
      else if class_name' = ''MeanSquareError'' then Inr (Loss MeanSquareError)
      else if class_name' = ''MeanAbsoluteError'' then Inr (Loss MeanAbsoluteError)
      else if class_name' = ''BinaryCrossEntropy'' then Inr (Loss BinaryCrossEntropy)
      else if class_name' = ''CategoricalCrossEntropy'' then Inr (Loss CategoricalCrossEntropy)
      else if class_name' = ''ABC'' then Inr ABC_instance
      else if class_name' \<in> set [''ActivationFunction'', ''LossFunction'', ''NeuralNetwork'',
                                  ''Layer'', ''Neuron'']
      then Inl TypeError
      else Inr PyNone)"

subsection \<open>Saving\<close>

text \<open>
  The file system maps a path to the text of the file there. \<open>str\<close> is Python's
  \<^verbatim>\<open>str\<close> of a float and \<open>flt\<close> its \<^verbatim>\<open>float\<close> of a string (\<open>None\<close> where \<^verbatim>\<open>float\<close> raises
  \<^verbatim>\<open>ValueError\<close>): the decimal text of a floating-point number is outside a model whose
  numbers are reals, so both are parameters.
\<close>

type_synonym filesystem = "string \<rightharpoonup> string"

text \<open>
  The loop of \<open>save\<close> over \<^verbatim>\<open>self.layers[1:]\<close>, appending to the text written so far. If a
  layer has no biases or no weights the iteration over them raises, and the file keeps
  what was written before.
\<close>

fun save_layers :: "(real \<Rightarrow> string) \<Rightarrow> string \<Rightarrow> Layer list \<Rightarrow> string \<times> error option" where
  "save_layers str content [] = (content, None)"
| "save_layers str content (l # ls) =
     (case biases l of
        None \<Rightarrow> (content @ [nl, nl], Some TypeError)
      | Some b \<Rightarrow>
         (case weights l of
            None \<Rightarrow> (content @ [nl, nl] @ join [comma] (map str b), Some TypeError)
          | Some w \<Rightarrow>
              save_layers str
                (content @ [nl, nl] @ join [comma] (map str b)
                   @ concat (map (\<lambda>ws. nl # join [comma] (map str ws)) w))
                ls))"

definition save ::
  "(real \<Rightarrow> string) \<Rightarrow> filesystem \<Rightarrow> NeuralNetwork \<Rightarrow> string \<Rightarrow> filesystem \<times> error option" where
  "save str fs nn filepath =
     (let layer_neuron_counts = map (\<lambda>l. str_nat (neuron_count l)) (layers nn);
          header = join [comma] layer_neuron_counts @ [nl]
                   @ join [comma] (map (\<lambda>l. activation_name (activation_func l)) (tl (layers nn)))
                   @ [nl] @ class_name (loss_func nn)
      in case save_layers str header (tl (layers nn)) of
           (content, r) \<Rightarrow> (fs(filepath \<mapsto> content), r))"

subsection \<open>Loading\<close>

definition invalid_float_msg :: string where
  "invalid_float_msg = ''could not convert string to float''"

definition unpack_msg :: string where
  "unpack_msg = ''not enough or too many values to unpack (expected 3)''"

definition parse_floats :: "(string \<Rightarrow> real option) \<Rightarrow> string \<Rightarrow> error + vec" where
  "parse_floats flt line =
     map_err (\<lambda>s. case flt s of None \<Rightarrow> Inl (ValueError invalid_float_msg) | Some x \<Rightarrow> Inr x)
       (split [comma] line)"

text \<open>
  \<^verbatim>\<open>weights[i] = values\<close>: the row must exist, and the values must be as many as the row
  is long, or one value that numpy stretches.
\<close>

definition set_row :: "mat \<Rightarrow> nat \<Rightarrow> vec \<Rightarrow> error + mat" where
  "set_row w i values =
     (if length w \<le> i then Inl IndexError
      else if length values = length (w ! i) then Inr (w[i := values])
      else if length values = 1 then Inr (w[i := replicate (length (w ! i)) (hd values)])
      else Inl (ValueError broadcast_msg))"

text \<open>The lines of one block, applied to the layer the block belongs to.\<close>

fun load_lines :: "(string \<Rightarrow> real option) \<Rightarrow> Layer \<Rightarrow> nat \<Rightarrow> string list \<Rightarrow> error + Layer" where
  "load_lines flt l i [] = Inr l"
| "load_lines flt l i (line # lines) =
     (case parse_floats flt line of
        Inl e \<Rightarrow> Inl e
      | Inr values \<Rightarrow>
          if i = 0 then load_lines flt (l\<lparr>biases := Some values\<rparr>) (Suc i) lines
          else
            (case weights l of
               None \<Rightarrow> Inl TypeError
             | Some w \<Rightarrow>
                (case set_row w (i - 1) values of
                   Inl e \<Rightarrow> Inl e
                 | Inr w' \<Rightarrow> load_lines flt (l\<lparr>weights := Some w'\<rparr>) (Suc i) lines)))"

text \<open>
  One block. The layer is looked up for every line, after the line has been parsed: a
  block beyond the last layer raises \<^verbatim>\<open>IndexError\<close> unless its first line fails to parse.
\<close>

definition load_block ::
  "(string \<Rightarrow> real option) \<Rightarrow> Layer list \<Rightarrow> nat \<Rightarrow> string list \<Rightarrow> error + Layer list" where
  "load_block flt ls layer_idx lines =
     (if layer_idx < length ls
      then (case load_lines flt (ls ! layer_idx) 0 lines of
              Inl e \<Rightarrow> Inl e
            | Inr l \<Rightarrow> Inr (ls[layer_idx := l]))
      else (case lines of
              [] \<Rightarrow> Inr ls
            | line # _ \<Rightarrow>
                (case parse_floats flt line of Inl e \<Rightarrow> Inl e | Inr _ \<Rightarrow> Inl IndexError)))"

fun load_blocks ::
  "(string \<Rightarrow> real option) \<Rightarrow> Layer list \<Rightarrow> nat \<Rightarrow> string list \<Rightarrow> error + Layer list" where
  "load_blocks flt ls layer_idx [] = Inr ls"
| "load_blocks flt ls layer_idx (block # blocks) =
     (case load_block flt ls layer_idx (split [nl] block) of
        Inl e \<Rightarrow> Inl e
      | Inr ls' \<Rightarrow> load_blocks flt ls' (Suc layer_idx) blocks)"

text \<open>The first block of the file: sizes, activation names, loss name; then the constructor.\<close>

definition load_header ::
  "np_rng \<Rightarrow> string list \<Rightarrow> error + NeuralNetwork \<times> np_rng" where
  "load_header g lines =
     (case lines of
        [layer_neuron_counts, act_fns, loss_fn] \<Rightarrow>
          (case map_err py_int (split [comma] layer_neuron_counts) of
             Inl e \<Rightarrow> Inl e
           | Inr counts \<Rightarrow>
              (case map_err get_class_by_name (split [comma] act_fns) of
                 Inl e \<Rightarrow> Inl e
               | Inr acts \<Rightarrow>
                  (case get_class_by_name loss_fn of
                     Inl e \<Rightarrow> Inl e
                   | Inr loss \<Rightarrow> NeuralNetwork_init g counts (Several acts) loss)))
      | _ \<Rightarrow> Inl (ValueError unpack_msg))"

text \<open>
  \<open>load\<close> returns \<open>None\<close> for a path that does not exist. For a file that exists the first
  block always runs, so the result is a network or an exception.
\<close>

definition load ::
  "(string \<Rightarrow> real option) \<Rightarrow> filesystem \<Rightarrow> np_rng \<Rightarrow> string
   \<Rightarrow> error + NeuralNetwork option \<times> np_rng" where
  "load flt fs g filepath =
     (case fs filepath of
        None \<Rightarrow> Inr (None, g)
      | Some content \<Rightarrow>
         (case split [nl, nl] content of
            [] \<Rightarrow> Inr (None, g)
          | first # blocks \<Rightarrow>
             (case load_header g (split [nl] first) of
                Inl e \<Rightarrow> Inl e
              | Inr (network, g') \<Rightarrow>
                 (case load_blocks flt (layers network) 1 blocks of
                    Inl e \<Rightarrow> Inl e
                  | Inr ls \<Rightarrow> Inr (Some (network\<lparr>layers := ls\<rparr>), g')))))"

section \<open>Invariants\<close>

definition has_shape :: "mat \<Rightarrow> nat \<Rightarrow> nat \<Rightarrow> bool" where
  "has_shape m r c = (length m = r \<and> list_all (\<lambda>row. length row = c) m)"

text \<open>
  \<open>owns_parameters p ls\<close>: every layer of \<open>ls\<close>, the first of which follows \<open>p\<close>, owns a
  weight matrix of shape (own neuron count, previous neuron count) and a bias vector as
  long as its neuron count.
\<close>

fun owns_parameters :: "Layer \<Rightarrow> Layer list \<Rightarrow> bool" where
  "owns_parameters p [] = True"
| "owns_parameters p (l # ls) =
     ((case weights l of None \<Rightarrow> False | Some w \<Rightarrow> has_shape w (neuron_count l) (neuron_count p))
      \<and> (case biases l of None \<Rightarrow> False | Some b \<Rightarrow> length b = neuron_count l)
      \<and> owns_parameters l ls)"

definition shape_invariant :: "NeuralNetwork \<Rightarrow> bool" where
  "shape_invariant nn =
     (case layers nn of
        [] \<Rightarrow> True
      | l0 # ls \<Rightarrow> weights l0 = None \<and> biases l0 = None \<and> owns_parameters l0 ls)"

definition buffers_ok :: "Layer \<Rightarrow> bool" where
  "buffers_ok l =
     (0 < neuron_count l \<and> length (z l) = neuron_count l
      \<and> length (activations l) = neuron_count l)"

text \<open>
  A well-formed network is what the constructor builds and what the operations keep:
  at least one layer, parameters of the right shapes, and in every layer buffers as long
  as the (positive) neuron count.
\<close>

definition wf_network :: "NeuralNetwork \<Rightarrow> bool" where
  "wf_network nn = (layers nn \<noteq> [] \<and> shape_invariant nn \<and> list_all buffers_ok (layers nn))"

definition same_layer :: "Layer \<Rightarrow> Layer \<Rightarrow> bool" where
  "same_layer a b =
     (neuron_count a = neuron_count b \<and> activation_func a = activation_func b
      \<and> weights a = weights b \<and> biases a = biases b)"

text \<open>Two networks with the same weights, biases and activation functions, layer by layer.\<close>

definition same_parameters :: "NeuralNetwork \<Rightarrow> NeuralNetwork \<Rightarrow> bool" where
  "same_parameters nn nn' = list_all2 same_layer (layers nn) (layers nn')"

section \<open>The gradient step, as the specification words it\<close>

text \<open>
  \<open>gradient_matches p ls gr\<close>: the gradient has one entry for every layer of \<open>ls\<close> (the
  first of which follows \<open>p\<close>), of the shapes of that layer's weights and biases.
  \<open>sgd_step\<close> is the step of one parameter, \<open>x - lr * clip g\<close>, and \<open>sgd_layer\<close> applies it
  to every weight and bias of a layer.
\<close>

fun gradient_matches :: "Layer \<Rightarrow> Layer list \<Rightarrow> gradient \<Rightarrow> bool" where
  "gradient_matches p [] gr = (gr = [])"
| "gradient_matches p (l # ls) [] = False"
| "gradient_matches p (l # ls) ((wg, bg) # gr) =
     (has_shape wg (neuron_count l) (neuron_count p) \<and> length bg = neuron_count l
      \<and> gradient_matches l ls gr)"

definition sgd_step :: "real \<Rightarrow> real \<Rightarrow> real \<Rightarrow> real" where
  "sgd_step lr x g = x - lr * clip1 (- 1) 1 g"

definition sgd_layer :: "real \<Rightarrow> Layer \<Rightarrow> mat \<times> vec \<Rightarrow> Layer" where
  "sgd_layer lr l g =
     l\<lparr>weights := map_option (\<lambda>w. map2 (map2 (sgd_step lr)) w (fst g)) (weights l),
       biases := map_option (\<lambda>b. map2 (sgd_step lr) b (snd g)) (biases l)\<rparr>"

section \<open>The equations of the backward pass\<close>

text \<open>
  \<open>transposed_times w v n\<close> is the product of the transpose of \<open>w\<close> (with \<open>n\<close> columns)
  and the vector \<open>v\<close>, written out entry by entry.
\<close>

definition transposed_times :: "mat \<Rightarrow> vec \<Rightarrow> nat \<Rightarrow> vec" where
  "transposed_times w v n = map (\<lambda>j. \<Sum>i<length w. (w ! i ! j) * (v ! i)) [0..<n]"

text \<open>
  \<open>layer_gradients p l\<close>: the gradient buffers of layer \<open>l\<close> and of its predecessor \<open>p\<close>
  satisfy the equations of the backward pass.
\<close>

definition layer_gradients :: "Layer \<Rightarrow> Layer \<Rightarrow> bool" where
  "layer_gradients p l =
     (case (a_grad l, z_grad l, w_grad l, weights l) of
        (Some g, Some zg, Some wg, Some w) \<Rightarrow>
          zg = map2 (*) (act_derivative (activation_func l) (z l)) g
          \<and> wg = np_outer zg (activations p)
          \<and> a_grad p = Some (transposed_times w zg (neuron_count p))
      | _ \<Rightarrow> False)"

text \<open>\<open>follows p l\<close>: layer \<open>l\<close> owns parameters shaped for the predecessor \<open>p\<close>.\<close>

definition follows :: "Layer \<Rightarrow> Layer \<Rightarrow> bool" where
  "follows p l =
     ((case weights l of None \<Rightarrow> False | Some w \<Rightarrow> has_shape w (neuron_count l) (neuron_count p))
      \<and> (case biases l of None \<Rightarrow> False | Some b \<Rightarrow> length b = neuron_count l))"

text \<open>Two layers that differ in their gradient buffers at most.\<close>

definition same_forward_state :: "Layer \<Rightarrow> Layer \<Rightarrow> bool" where
  "same_forward_state a b = (same_layer a b \<and> z a = z b \<and> activations a = activations b)"

section \<open>Shapes\<close>

text \<open>
  \<open>same_shape a b\<close>: the layers have the same neuron count, and weights and biases of
  the same shapes (or none). \<open>shape_kept\<close> lifts it to the layers of two networks.
\<close>

definition same_shape :: "Layer \<Rightarrow> Layer \<Rightarrow> bool" where
  "same_shape a b =
     (neuron_count a = neuron_count b
      \<and> rel_option (list_all2 (\<lambda>r s. length r = length s)) (weights a) (weights b)
      \<and> rel_option (\<lambda>x y. length x = length y) (biases a) (biases b))"

definition shape_kept :: "NeuralNetwork \<Rightarrow> NeuralNetwork \<Rightarrow> bool" where
  "shape_kept nn nn' = list_all2 same_shape (layers nn) (layers nn')"

section \<open>The shape of a saved file\<close>

text \<open>
  \<open>prints_back str flt x\<close>: the text of \<open>x\<close> reads back as \<open>x\<close>, is not empty and holds
  neither a comma nor a newline. Python's \<^verbatim>\<open>str\<close> and \<^verbatim>\<open>float\<close> have this property on
  every finite floating-point number (the shortest text that reads back).
\<close>

definition prints_back :: "(real \<Rightarrow> string) \<Rightarrow> (string \<Rightarrow> real option) \<Rightarrow> real \<Rightarrow> bool" where
  "prints_back str flt x = (flt (str x) = Some x \<and> (str x \<noteq> [] \<and> nl \<notin> set (str x) \<and> comma \<notin> set (str x)))"

text \<open>The biases and weights of a layer, and the text of its block in the file.\<close>

definition layer_numbers :: "Layer \<Rightarrow> real list" where
  "layer_numbers l =
     (case biases l of None \<Rightarrow> [] | Some b \<Rightarrow> b)
     @ (case weights l of None \<Rightarrow> [] | Some w \<Rightarrow> concat w)"

definition layer_text :: "(real \<Rightarrow> string) \<Rightarrow> Layer \<Rightarrow> string" where
  "layer_text str l =
     (case (biases l, weights l) of
        (Some b, Some w) \<Rightarrow>
          join [nl] (join [comma] (map str b) # map (\<lambda>ws. join [comma] (map str ws)) w)
      | _ \<Rightarrow> [])"

text \<open>
  \<open>no_occ sep x t\<close>: in the text \<open>x @ t\<close> no occurrence of \<open>sep\<close> starts inside \<open>x\<close>.
  A \<open>calm\<close> text has no two newlines in a row and does not end in one; a line is a
  non-empty text without newline, a token one without newline and comma.
\<close>

fun no_occ :: "string \<Rightarrow> string \<Rightarrow> string \<Rightarrow> bool" where
  "no_occ sep [] t = True"
| "no_occ sep (c # x) t = (take (length sep) (c # x @ t) \<noteq> sep \<and> no_occ sep x t)"

definition calm :: "string \<Rightarrow> bool" where
  "calm x = (x \<noteq> [] \<and> last x \<noteq> nl \<and> successively (\<lambda>a b. \<not> (a = nl \<and> b = nl)) x)"

definition line_ok :: "string \<Rightarrow> bool" where
  "line_ok s = (s \<noteq> [] \<and> nl \<notin> set s)"

definition token_ok :: "string \<Rightarrow> bool" where
  "token_ok s = (s \<noteq> [] \<and> nl \<notin> set s \<and> comma \<notin> set s)"

text \<open>The ten ASCII digits.\<close>

definition plain_digit :: "char \<Rightarrow> bool" where
  "plain_digit c = (\<exists>k<10. c = digit_char k)"

text \<open>
  \<open>loaded c t\<close>: the constructed layer \<open>c\<close> after the block of the saved layer \<open>t\<close> has
  been read into it. \<open>savable\<close>: a layer with at least one bias and no empty weight row,
  whose numbers all print back.
\<close>

definition loaded :: "Layer \<Rightarrow> Layer \<Rightarrow> Layer" where
  "loaded c t = c\<lparr>biases := biases t, weights := weights t\<rparr>"

definition savable :: "(real \<Rightarrow> string) \<Rightarrow> (string \<Rightarrow> real option) \<Rightarrow> Layer \<Rightarrow> bool" where
  "savable str flt t =
     ((case (biases t, weights t) of
         (Some b, Some w) \<Rightarrow> b \<noteq> [] \<and> list_all (\<lambda>r. r \<noteq> []) w
       | _ \<Rightarrow> False)
      \<and> list_all (prints_back str flt) (layer_numbers t))"

text \<open>Every weight and bias of the network prints back.\<close>

definition numbers_print_back ::
  "(real \<Rightarrow> string) \<Rightarrow> (string \<Rightarrow> real option) \<Rightarrow> NeuralNetwork \<Rightarrow> bool" where
  "numbers_print_back str flt nn =
     list_all (\<lambda>l. list_all (prints_back str flt) (layer_numbers l)) (layers nn)"

section \<open>Examples\<close>

text \<open>A network with layer sizes 2, 2, 1, as it is right after construction and loading of weights.\<close>

definition example_input_layer :: Layer where
  "example_input_layer =
     \<lparr>neuron_count = 2, activation_func = Sigmoid, weights = None, biases = None,
      z = [0, 0], activations = [0, 0], a_grad = None, z_grad = None, w_grad = None\<rparr>"

definition example_hidden_layer :: Layer where
  "example_hidden_layer =
     \<lparr>neuron_count = 2, activation_func = ReLU,
      weights = Some [[1, 2], [3, - 4]], biases = Some [0, 1],
      z = [0, 0], activations = [0, 0], a_grad = None, z_grad = None, w_grad = None\<rparr>"

definition example_output_layer :: Layer where
  "example_output_layer =
     \<lparr>neuron_count = 1, activation_func = LeakyReLU,
      weights = Some [[1, - 1]], biases = Some [1 / 2],
      z = [0], activations = [0], a_grad = None, z_grad = None, w_grad = None\<rparr>"

definition example_network :: NeuralNetwork where
  "example_network =
     \<lparr>loss_func = Loss MeanSquareError,
      layers = [example_input_layer, example_hidden_layer, example_output_layer],
      cost = - 1\<rparr>"

text \<open>
  A network with one input and two outputs, and a gradient for \<open>example_network\<close> with
  entries outside \<open>[-1, 1]\<close>.
\<close>

definition example_wide_network :: NeuralNetwork where
  "example_wide_network =
     \<lparr>loss_func = Loss MeanSquareError,
      layers =
        [\<lparr>neuron_count = 1, activation_func = Sigmoid, weights = None, biases = None,
          z = [0], activations = [0], a_grad = None, z_grad = None, w_grad = None\<rparr>,
         \<lparr>neuron_count = 2, activation_func = ReLU, weights = Some [[1], [2]],
          biases = Some [0, 0], z = [0, 0], activations = [0, 0],
          a_grad = None, z_grad = None, w_grad = None\<rparr>],
      cost = - 1\<rparr>"

definition example_gradient :: gradient where
  "example_gradient = [([[5, 0], [1 / 2, - 5]], [5, 0]), ([[1 / 4, - 3]], [- 3])]"

text \<open>
  What the constructor builds for the layer sizes 2, 1 with \<open>Sigmoid\<close> when every normal
  draw is 1.
\<close>

definition constructed_network :: NeuralNetwork where
  "constructed_network =
     \<lparr>loss_func = Loss MeanSquareError,
      layers =
        [\<lparr>neuron_count = 2, activation_func = Sigmoid, weights = None, biases = None,
          z = [0, 0], activations = [0, 0], a_grad = None, z_grad = None, w_grad = None\<rparr>,
         \<lparr>neuron_count = 1, activation_func = Sigmoid, weights = Some [[1, 1]],
          biases = Some [0], z = [0], activations = [0],
          a_grad = None, z_grad = None, w_grad = None\<rparr>],
      cost = - 1\<rparr>"

text \<open>A saved model whose activation line names a class the module does not have.\<close>

definition unknown_activation_file :: string where
  "unknown_activation_file =
     ''2,1'' @ [nl] @ ''Tanh'' @ [nl] @ ''MeanSquareError'' @ [nl, nl] @ ''0.0'' @ [nl] @ ''1.0,1.0''"

text \<open>
  A printer and a reader that agree with Python's on the numbers of the example network,
  and the file that \<open>save\<close> writes for it.
\<close>

definition example_str :: "real \<Rightarrow> string" where
  "example_str x =
     (if x = 0 then ''0.0'' else if x = 1 then ''1.0'' else if x = 2 then ''2.0''
      else if x = 3 then ''3.0'' else if x = - 4 then ''-4.0'' else if x = - 1 then ''-1.0''
      else if x = 1 / 2 then ''0.5'' else ''nan'')"

definition example_flt :: "string \<Rightarrow> real option" where
  "example_flt s =
     (if s = ''0.0'' then Some 0 else if s = ''1.0'' then Some 1 else if s = ''2.0'' then Some 2
      else if s = ''3.0'' then Some 3 else if s = ''-4.0'' then Some (- 4)
      else if s = ''-1.0'' then Some (- 1) else if s = ''0.5'' then Some (1 / 2) else None)"

definition example_file :: string where
  "example_file =
     ''2,2,1'' @ [nl] @ ''ReLU,LeakyReLU'' @ [nl] @ ''MeanSquareError''
     @ [nl, nl] @ ''0.0,1.0'' @ [nl] @ ''1.0,2.0'' @ [nl] @ ''3.0,-4.0''
     @ [nl, nl] @ ''0.5'' @ [nl] @ ''1.0,-1.0''"

section \<open>Properties\<close>

subsection \<open>The forward pass\<close>

lemma act_call_length: "length (act_call f x) = length x"
  by (cases f) (simp_all add: np_clip_def)

lemma act_derivative_length: "length (act_derivative f x) = length x"
  by (cases f) (simp_all add: np_clip_def)

lemma forward_ok:
  assumes "weights l = Some w" "has_shape w (neuron_count l) (length (activations p))"
    "biases l = Some b" "length b = neuron_count l"
  shows "\<exists>s. length s = neuron_count l \<and>
     forward (Some p) l = Inr (l\<lparr>z := s, activations := act_call (activation_func l) s\<rparr>)"
proof -
  let ?s = "map2 (+) (map (\<lambda>r. sum_list (map2 (*) r (activations p))) w) b"
  have "length ?s = neuron_count l"
    using assms by (simp add: has_shape_def)
  moreover have "forward (Some p) l = Inr (l\<lparr>z := ?s, activations := act_call (activation_func l) ?s\<rparr>)"
    using assms by (simp add: has_shape_def np_dot_def broadcast1_def)
  ultimately show ?thesis by blast
qed

lemma forward_same_layer: "forward po l = Inr l' \<Longrightarrow> same_layer l l'"
  by (cases po) (auto simp: same_layer_def split: option.splits sum.splits)

lemma forward_layers_Inr:
  "forward (Some p) l = Inr l' \<Longrightarrow>
   forward_layers p (l # ls) = (l' # fst (forward_layers l' ls), snd (forward_layers l' ls))"
  by (simp split: prod.splits)

lemma forward_layers_Inl:
  "forward (Some p) l = Inl e \<Longrightarrow> forward_layers p (l # ls) = (l # ls, Some e)"
  by simp

lemma forward_layers_same_layer:
  "list_all2 same_layer ls (fst (forward_layers p ls))"
proof (induction ls arbitrary: p)
  case Nil
  show ?case by simp
next
  case (Cons l ls)
  show ?case
  proof (cases "forward (Some p) l")
    case (Inl e)
    then show ?thesis by (simp only: forward_layers_Inl fst_conv) (simp add: same_layer_def list.rel_refl)
  next
    case (Inr l')
    then show ?thesis using Cons.IH[of l'] forward_same_layer[OF Inr]
      by (simp only: forward_layers_Inr fst_conv) simp
  qed
qed

lemma owns_parameters_cong:
  "list_all2 same_layer ls ls' \<Longrightarrow> neuron_count p = neuron_count p' \<Longrightarrow>
   owns_parameters p ls \<Longrightarrow> owns_parameters p' ls'"
proof (induction ls ls' arbitrary: p p' rule: list_all2_induct)
  case Nil
  show ?case by simp
next
  case (Cons l ls l' ls')
  then show ?case by (auto simp: same_layer_def split: option.splits)
qed

lemma forward_layers_ok:
  "owns_parameters p ls \<Longrightarrow> length (activations p) = neuron_count p \<Longrightarrow> list_all buffers_ok ls \<Longrightarrow>
   snd (forward_layers p ls) = None \<and> list_all buffers_ok (fst (forward_layers p ls))"
proof (induction ls arbitrary: p)
  case Nil
  show ?case by simp
next
  case (Cons l ls)
  from Cons.prems obtain w b where wb: "weights l = Some w" "biases l = Some b"
    "has_shape w (neuron_count l) (length (activations p))" "length b = neuron_count l"
    by (auto split: option.splits)
  from forward_ok[OF wb(1) wb(3) wb(2) wb(4)] obtain s where
    s: "length s = neuron_count l"
       "forward (Some p) l = Inr (l\<lparr>z := s, activations := act_call (activation_func l) s\<rparr>)"
    by blast
  let ?l' = "l\<lparr>z := s, activations := act_call (activation_func l) s\<rparr>"
  have "owns_parameters ?l' ls" using Cons.prems(1)
    by (cases ls) (auto split: option.splits)
  moreover have "length (activations ?l') = neuron_count ?l'"
    using s(1) by (simp add: act_call_length)
  moreover have "list_all buffers_ok ls" using Cons.prems(3) by simp
  ultimately have IH: "snd (forward_layers ?l' ls) = None \<and> list_all buffers_ok (fst (forward_layers ?l' ls))"
    by (rule Cons.IH)
  have "buffers_ok ?l'" using Cons.prems(3) s(1) by (simp add: buffers_ok_def act_call_length)
  with IH show ?case by (simp only: forward_layers_Inr[OF s(2)] fst_conv snd_conv) simp
qed

lemma forward_explicit:
  assumes "weights l = Some w" "has_shape w (neuron_count l) (length (activations p))"
    "biases l = Some b" "length b = neuron_count l"
  shows "forward (Some p) l =
     Inr (l\<lparr>z := map2 (+) (map (\<lambda>r. sum_list (map2 (*) r (activations p))) w) b,
            activations := act_call (activation_func l)
               (map2 (+) (map (\<lambda>r. sum_list (map2 (*) r (activations p))) w) b)\<rparr>)"
  using assms by (simp add: has_shape_def np_dot_def broadcast1_def)

lemma forward_layers_cong:
  "list_all2 same_layer ls ls' \<Longrightarrow> activations p = activations p' \<Longrightarrow>
   length (activations p) = neuron_count p \<Longrightarrow> neuron_count p = neuron_count p' \<Longrightarrow>
   owns_parameters p ls \<Longrightarrow>
   map activations (fst (forward_layers p ls)) = map activations (fst (forward_layers p' ls'))"
proof (induction ls ls' arbitrary: p p' rule: list_all2_induct)
  case Nil
  show ?case by simp
next
  case (Cons l ls l' ls')
  from Cons.prems(4) Cons.prems(2) obtain w b where wb0: "weights l = Some w" "biases l = Some b"
    "has_shape w (neuron_count l) (length (activations p))" "length b = neuron_count l"
    by (auto split: option.splits)
  have sl: "neuron_count l' = neuron_count l" "weights l' = weights l" "biases l' = biases l"
    "activation_func l' = activation_func l"
    using Cons.hyps(1) by (simp_all add: same_layer_def)
  have wb: "weights l = Some w" "biases l = Some b"
    "has_shape w (neuron_count l) (length (activations p))" "length b = neuron_count l"
    "weights l' = Some w" "biases l' = Some b"
    "has_shape w (neuron_count l') (length (activations p'))" "length b = neuron_count l'"
    using wb0 sl Cons.prems(1) by simp_all
  let ?s = "map2 (+) (map (\<lambda>r. sum_list (map2 (*) r (activations p))) w) b"
  let ?m = "l\<lparr>z := ?s, activations := act_call (activation_func l) ?s\<rparr>"
  let ?m' = "l'\<lparr>z := ?s, activations := act_call (activation_func l') ?s\<rparr>"
  have f: "forward (Some p) l = Inr ?m"
    by (rule forward_explicit[OF wb(1) wb(3) wb(2) wb(4)])
  have f': "forward (Some p') l' = Inr ?m'"
    using forward_explicit[OF wb(5) wb(7) wb(6) wb(8)] Cons.prems(1) by simp
  have len: "length ?s = neuron_count l" using wb by (simp add: has_shape_def)
  have "map activations (fst (forward_layers ?m ls)) = map activations (fst (forward_layers ?m' ls'))"
  proof (rule Cons.IH)
    show "activations ?m = activations ?m'" using Cons.hyps(1) by (simp add: same_layer_def)
    show "length (activations ?m) = neuron_count ?m" using len by (simp add: act_call_length)
    show "neuron_count ?m = neuron_count ?m'" using Cons.hyps(1) by (simp add: same_layer_def)
    show "owns_parameters ?m ls" using Cons.prems(4) by (cases ls) (auto split: option.splits)
  qed
  then show ?case using Cons.hyps(1)
    by (simp only: forward_layers_Inr[OF f] forward_layers_Inr[OF f'] fst_conv)
       (simp add: same_layer_def)
qed

lemma predict_ok:
  assumes wf: "wf_network nn" and l: "layers nn = l0 # ls" and len: "length x = neuron_count l0"
  shows "predict nn x =
     (nn\<lparr>layers := l0\<lparr>activations := x\<rparr> # fst (forward_layers (l0\<lparr>activations := x\<rparr>) ls)\<rparr>,
      Inr (last (x # map activations (fst (forward_layers (l0\<lparr>activations := x\<rparr>) ls)))))"
proof -
  let ?l0 = "l0\<lparr>activations := x\<rparr>"
  have b0: "buffers_ok l0" and bs: "list_all buffers_ok ls" and own: "owns_parameters l0 ls"
    using wf l by (simp_all add: wf_network_def shape_invariant_def)
  have chk: "length (activations l0) = length x" using b0 len by (simp add: buffers_ok_def)
  have own': "owns_parameters ?l0 ls" using own by (cases ls) (auto split: option.splits)
  have "snd (forward_layers ?l0 ls) = None"
    using forward_layers_ok[OF own' _ bs] len by simp
  then obtain ls' where fl: "forward_layers ?l0 ls = (ls', None)"
    by (cases "forward_layers ?l0 ls") auto
  have "activations (last (?l0 # ls')) = last (x # map activations ls')"
    by (cases ls' rule: rev_cases) simp_all
  then show ?thesis using l chk fl by (simp add: predict_def)
qed

lemma predict_wf:
  assumes wf: "wf_network nn" and len: "length x = neuron_count (hd (layers nn))"
  shows "wf_network (fst (predict nn x)) \<and> same_parameters nn (fst (predict nn x))"
proof -
  from wf obtain l0 ls where l: "layers nn = l0 # ls"
    by (cases "layers nn") (auto simp: wf_network_def)
  let ?l0 = "l0\<lparr>activations := x\<rparr>"
  have len0: "length x = neuron_count l0" using len l by simp
  have b0: "buffers_ok l0" and bs: "list_all buffers_ok ls" and own: "owns_parameters l0 ls"
    and n0: "weights l0 = None" "biases l0 = None"
    using wf l by (simp_all add: wf_network_def shape_invariant_def)
  have own': "owns_parameters ?l0 ls" using own by (cases ls) (auto split: option.splits)
  have ok: "list_all buffers_ok (fst (forward_layers ?l0 ls))"
    using forward_layers_ok[OF own' _ bs] len0 by simp
  have same: "list_all2 same_layer ls (fst (forward_layers ?l0 ls))"
    by (rule forward_layers_same_layer)
  have own2: "owns_parameters ?l0 (fst (forward_layers ?l0 ls))"
    by (rule owns_parameters_cong[OF same _ own']) simp
  have "buffers_ok ?l0" using b0 len0 by (simp add: buffers_ok_def)
  then show ?thesis
    using predict_ok[OF wf l len0] ok same own2 n0 l
    by (simp add: wf_network_def shape_invariant_def same_parameters_def same_layer_def)
qed

lemma predict_same_parameters:
  assumes wf: "wf_network nn" and wf': "wf_network nn'" and sp: "same_parameters nn nn'"
    and len: "length x = neuron_count (hd (layers nn))"
  shows "snd (predict nn' x) = snd (predict nn x)"
proof -
  from wf obtain l0 ls where l: "layers nn = l0 # ls"
    by (cases "layers nn") (auto simp: wf_network_def)
  from wf' obtain l0' ls' where l': "layers nn' = l0' # ls'"
    by (cases "layers nn'") (auto simp: wf_network_def)
  have s0: "same_layer l0 l0'" and ss: "list_all2 same_layer ls ls'"
    using sp l l' by (simp_all add: same_parameters_def)
  have len0: "length x = neuron_count l0" using len l by simp
  have len0': "length x = neuron_count l0'" using len0 s0 by (simp add: same_layer_def)
  have own: "owns_parameters l0 ls" using wf l by (simp add: wf_network_def shape_invariant_def)
  have own': "owns_parameters (l0\<lparr>activations := x\<rparr>) ls"
    using own by (cases ls) (auto split: option.splits)
  have "map activations (fst (forward_layers (l0\<lparr>activations := x\<rparr>) ls)) =
        map activations (fst (forward_layers (l0'\<lparr>activations := x\<rparr>) ls'))"
    by (rule forward_layers_cong[OF ss _ _ _ own']) (use len0 s0 in \<open>simp_all add: same_layer_def\<close>)
  then show ?thesis
    using predict_ok[OF wf l len0] predict_ok[OF wf' l' len0'] by simp
qed

lemma example_network_wf: "wf_network example_network"
  by (simp add: wf_network_def shape_invariant_def example_network_def example_input_layer_def
      example_hidden_layer_def example_output_layer_def has_shape_def buffers_ok_def)

text \<open>
  Claim C10. When \<open>predict\<close> is called on a well-formed network with an input vector whose
  length differs from the input layer's neuron count, it raises the library's
  \<^verbatim>\<open>ValueError\<close> and the network it leaves behind is the network it was given: no
  activations, pre-activations, weights or biases have changed.
\<close>

theorem predict_wrong_length_atomic:
  assumes "wf_network nn" and "length inputs \<noteq> neuron_count (hd (layers nn))"
  shows "predict nn inputs = (nn, Inl (ValueError input_length_msg))"
proof -
  from assms(1) obtain l0 ls where l: "layers nn = l0 # ls"
    by (cases "layers nn") (auto simp: wf_network_def)
  have "length (activations l0) = neuron_count l0"
    using assms(1) l by (simp add: wf_network_def buffers_ok_def)
  then show ?thesis using assms(2) l by (simp add: predict_def)
qed

theorem predict_wrong_length_atomic_witness:
  "wf_network example_network
   \<and> length [1 :: real] \<noteq> neuron_count (hd (layers example_network))
   \<and> predict example_network [1] = (example_network, Inl (ValueError input_length_msg))"
  using predict_wrong_length_atomic [of example_network "[1]"] example_network_wf
  by (simp add: example_network_def example_input_layer_def)

text \<open>
  Claim C9. On a well-formed network and an input of the right length, \<open>predict\<close> returns
  an output vector; calling it again with the same input on the network the first call
  left behind returns the same vector; and so does any well-formed network with the same
  weights, biases and activation functions, whatever its buffers hold. The forward pass
  depends on nothing else.
\<close>

theorem predict_deterministic:
  assumes "wf_network nn" and "length x = neuron_count (hd (layers nn))"
  shows "\<exists>out. snd (predict nn x) = Inr out
           \<and> snd (predict (fst (predict nn x)) x) = Inr out
           \<and> (\<forall>nn'. wf_network nn' \<and> same_parameters nn nn' \<longrightarrow> snd (predict nn' x) = Inr out)"
proof -
  from assms(1) obtain l0 ls where l: "layers nn = l0 # ls"
    by (cases "layers nn") (auto simp: wf_network_def)
  from predict_ok[OF assms(1) l] assms(2) l obtain out where out: "snd (predict nn x) = Inr out"
    by simp
  have "snd (predict nn' x) = Inr out" if "wf_network nn' \<and> same_parameters nn nn'" for nn'
    using predict_same_parameters[OF assms(1) _ _ assms(2), of nn'] that out by simp
  moreover from this predict_wf[OF assms] have "snd (predict (fst (predict nn x)) x) = Inr out"
    by blast
  ultimately show ?thesis using out by blast
qed

theorem predict_deterministic_witness:
  "wf_network example_network
   \<and> length [1 :: real, 2] = neuron_count (hd (layers example_network))
   \<and> (\<exists>out. snd (predict example_network [1, 2]) = Inr out
         \<and> snd (predict (fst (predict example_network [1, 2])) [1, 2]) = Inr out
         \<and> (\<forall>nn'. wf_network nn' \<and> same_parameters example_network nn'
               \<longrightarrow> snd (predict nn' [1, 2]) = Inr out))"
  using predict_deterministic [of example_network "[1, 2]"] example_network_wf
  by (simp add: example_network_def example_input_layer_def)

subsection \<open>Updating the weights\<close>

lemma inplace1_same_length:
  "length b = length a \<Longrightarrow> inplace1 f a b = Inr (map2 f a b)"
  by (simp add: inplace1_def)

lemma inplace_rows_same_shape:
  "list_all2 (\<lambda>r s. length s = length r) a b \<Longrightarrow> inplace_rows f a b = Inr (map2 (map2 f) a b)"
  by (induction a b rule: list_all2_induct) (simp_all add: inplace1_same_length)

lemma has_shape_rows:
  "has_shape a r c \<Longrightarrow> has_shape b r c \<Longrightarrow> list_all2 (\<lambda>r s. length s = length r) a b"
  by (auto simp: has_shape_def list_all2_conv_all_nth list_all_length)

lemma inplace2_same_shape:
  assumes "has_shape a r c" "has_shape b r c"
  shows "inplace2 f a b = Inr (map2 (map2 f) a b)"
  using inplace_rows_same_shape[OF has_shape_rows[OF assms]] assms
  by (simp add: inplace2_def has_shape_def)

lemma has_shape_scale_clip:
  "has_shape g r c \<Longrightarrow> has_shape (scale2 lr (np_clip2 lo hi g)) r c"
  by (simp add: has_shape_def scale2_def np_clip2_def np_clip_def list_all_iff)

lemma sub_scaled_clipped_vec:
  "map2 (-) b (map (\<lambda>x. x * lr) (np_clip (- 1) 1 g)) = map2 (sgd_step lr) b g"
  by (simp add: np_clip_def zip_map2 sgd_step_def case_prod_unfold mult.commute)

lemma sub_scaled_clipped_mat:
  "list_all2 (\<lambda>r s. length s = length r) w g \<Longrightarrow> map2 (map2 (-)) w (scale2 lr (np_clip2 (- 1) 1 g)) = map2 (map2 (sgd_step lr)) w g"
  by (induction w g rule: list_all2_induct) (simp_all add: scale2_def np_clip2_def sub_scaled_clipped_vec[symmetric])

lemma update_layers_matching:
  "owns_parameters p ls \<Longrightarrow> gradient_matches p ls gr \<Longrightarrow>
   update_layers ls gr lr = (map2 (sgd_layer lr) ls gr, None)"
proof (induction ls gr lr arbitrary: p rule: update_layers.induct)
  case (1 gr lr)
  then show ?case by simp
next
  case (2 l ls lr)
  then show ?case by simp
next
  case (3 l ls wg bg gr lr)
  from "3.prems" obtain w b where wb: "weights l = Some w" "biases l = Some b"
    "has_shape w (neuron_count l) (neuron_count p)" "length b = neuron_count l"
    by (auto split: option.splits)
  from "3.prems" have g: "has_shape wg (neuron_count l) (neuron_count p)" "length bg = neuron_count l"
    "gradient_matches l ls gr" "owns_parameters l ls"
    by simp_all
  have w': "inplace2 (-) w (scale2 lr (np_clip2 (- 1) 1 wg)) = Inr (map2 (map2 (sgd_step lr)) w wg)"
    using inplace2_same_shape[OF wb(3) has_shape_scale_clip[OF g(1)], of "(-)" lr "- 1" 1]
      sub_scaled_clipped_mat[OF has_shape_rows[OF wb(3) g(1)]] by simp
  have "length (map (\<lambda>x. x * lr) (np_clip (- 1) 1 bg)) = length b"
    using wb(4) g(2) by (simp add: np_clip_def)
  from inplace1_same_length[OF this, of "(-)"]
  have b': "inplace1 (-) b (map (\<lambda>x. x * lr) (np_clip (- 1) 1 bg)) = Inr (map2 (sgd_step lr) b bg)"
    by (simp only: sub_scaled_clipped_vec)
  have IH: "update_layers ls gr lr = (map2 (sgd_layer lr) ls gr, None)"
    using "3.IH"[OF wb(1) w' wb(2) b' g(4) g(3)] .
  show ?case using wb w' b' IH by (simp add: sgd_layer_def)
qed

text \<open>
  Claim C8. For a network whose parameters have the shapes of the invariant and a gradient
  with one entry per non-input layer, each of the shape of that layer's weights and
  biases, \<open>update_weights\<close> raises nothing and replaces every weight and bias \<open>x\<close> of the
  non-input layers by \<open>x - learning_rate * clip g\<close>, where \<open>g\<close> is the matching gradient
  entry clipped to \<open>[-1, 1]\<close>; the input layer is untouched. A gradient entry of 5 lowers
  the parameter by exactly \<open>1 * learning_rate\<close>.
\<close>

theorem update_weights_clips_then_descends:
  assumes "shape_invariant nn" and "layers nn = l0 # ls" and "gradient_matches l0 ls gr"
  shows "update_weights nn gr lr = (nn\<lparr>layers := l0 # map2 (sgd_layer lr) ls gr\<rparr>, None)
         \<and> sgd_step lr x 5 = x - 1 * lr"
proof -
  have "owns_parameters l0 ls" using assms(1,2) by (simp add: shape_invariant_def)
  from update_layers_matching[OF this assms(3)] show ?thesis
    using assms(2) by (simp add: update_weights_def sgd_step_def clip1_def)
qed

lemma example_network_shape: "shape_invariant example_network"
  using example_network_wf by (simp add: wf_network_def)

theorem update_weights_clips_then_descends_witness:
  "shape_invariant example_network
   \<and> layers example_network = example_input_layer # [example_hidden_layer, example_output_layer]
   \<and> gradient_matches example_input_layer [example_hidden_layer, example_output_layer] example_gradient
   \<and> map weights (layers (fst (update_weights example_network example_gradient (1 / 10))))
       = [None, Some [[9 / 10, 2], [59 / 20, - 39 / 10]], Some [[39 / 40, - 9 / 10]]]
   \<and> map biases (layers (fst (update_weights example_network example_gradient (1 / 10))))
       = [None, Some [- 1 / 10, 1], Some [3 / 5]]
   \<and> snd (update_weights example_network example_gradient (1 / 10)) = None"
  using update_weights_clips_then_descends
    [of example_network example_input_layer "[example_hidden_layer, example_output_layer]"
        example_gradient "1 / 10" 0]
    example_network_shape
  by (simp add: example_network_def example_input_layer_def example_hidden_layer_def
      example_output_layer_def example_gradient_def has_shape_def sgd_layer_def sgd_step_def
      clip1_def)

subsection \<open>Loss functions on vectors\<close>

text \<open>
  Claim C4. The cost of \<open>CategoricalCrossEntropy\<close> on two one-dimensional vectors of equal
  length is not a scalar: the sum over \<^verbatim>\<open>axis=1\<close> raises \<^verbatim>\<open>AxisError\<close>, here on the
  predictions \<open>[0.5, 0.5]\<close> and the targets \<open>[1, 0]\<close>.
\<close>

theorem categorical_cross_entropy_cost_raises_on_vectors:
  "loss_cost CategoricalCrossEntropy [1 / 2, 1 / 2] [1, 0] = Inl AxisError"
  by (simp add: loss_cost_def broadcast1_def clip_eps_def np_clip_def)

text \<open>
  Claim C3. On a network with two output neurons, after \<open>predict\<close>, a target vector of
  length 1 makes \<open>current_cost\<close> raise the library's \<^verbatim>\<open>ValueError\<close>, but \<open>backprop\<close>
  raises nothing: the loss derivative broadcasts the single target over both outputs and
  a gradient comes back.
\<close>

theorem backprop_accepts_target_of_length_one:
  "snd (predict example_wide_network [1]) = Inr [1, 2]
   \<and> current_cost (fst (predict example_wide_network [1])) [1] = Inl (ValueError target_length_msg)
   \<and> snd (backprop (fst (predict example_wide_network [1])) [1]) = Inr [([[0], [2]], [0, 2])]"
  by (simp add: example_wide_network_def predict_def current_cost_def backprop_def
      np_dot_def broadcast1_def inplace1_def np_outer_def np_T_def)

subsection \<open>The backward pass\<close>

lemma owns_parameters_successively: "owns_parameters p ls = successively follows (p # ls)"
  by (induction ls arbitrary: p) (simp_all add: follows_def)

lemma sum_list_map2_nth:
  "length xs = length ys \<Longrightarrow> sum_list (map2 f xs ys) = (\<Sum>i<length xs. f (xs ! i) (ys ! i))"
proof -
  assume a: "length xs = length ys"
  have "sum_list (map2 f xs ys) = (\<Sum>i = 0..<length (map2 f xs ys). map2 f xs ys ! i)"
    by (rule sum_list_sum_nth)
  also have "\<dots> = (\<Sum>i = 0..<length xs. f (xs ! i) (ys ! i))"
    using a by (intro sum.cong) auto
  finally show ?thesis by (simp add: atLeast0LessThan)
qed

lemma np_dot_np_T:
  assumes "has_shape w r c" "0 < r" "length v = r"
  shows "np_dot (np_T w) v = Inr (transposed_times w v c)"
proof -
  from assms obtain row rest where w: "w = row # rest" by (cases w) (auto simp: has_shape_def)
  have c: "length row = c" using assms(1) w by (simp add: has_shape_def)
  have T: "np_T w = map (\<lambda>j. map (\<lambda>row. row ! j) w) [0..<c]"
    using w c by (simp add: np_T_def)
  have lw: "length w = length v" using assms by (simp add: has_shape_def)
  have "list_all (\<lambda>r. length r = length v) (np_T w)"
    unfolding T using lw by (simp add: list_all_iff)
  moreover have "map (\<lambda>r. sum_list (map2 (*) r v)) (np_T w) = transposed_times w v c"
    unfolding T transposed_times_def using lw
    by (simp add: sum_list_map2_nth o_def)
  ultimately show ?thesis by (simp add: np_dot_def)
qed

lemma backward_explicit:
  assumes "weights l = Some w" "has_shape w (neuron_count l) (neuron_count p)"
    "0 < neuron_count l" "length (z l) = neuron_count l" "a_grad l = Some g"
    "length g = neuron_count l"
  shows "backward (Some p) l =
     (Some (p\<lparr>a_grad := Some (transposed_times w
               (map2 (*) (act_derivative (activation_func l) (z l)) g) (neuron_count p))\<rparr>),
      l\<lparr>z_grad := Some (map2 (*) (act_derivative (activation_func l) (z l)) g),
        w_grad := Some (np_outer (map2 (*) (act_derivative (activation_func l) (z l)) g)
                          (activations p))\<rparr>,
      None)"
proof -
  let ?d = "act_derivative (activation_func l) (z l)"
  let ?zg = "map2 (*) ?d g"
  have "length g = length ?d" using assms by (simp add: act_derivative_length)
  then have ip: "inplace1 (*) ?d g = Inr ?zg" by (simp add: inplace1_def)
  have "length ?zg = neuron_count l" using assms by (simp add: act_derivative_length)
  from np_dot_np_T[OF assms(2,3) this]
  have dt: "np_dot (np_T w) ?zg = Inr (transposed_times w ?zg (neuron_count p))" .
  show ?thesis using assms(1,5) ip dt by (simp add: Let_def)
qed

lemma transposed_times_length: "length (transposed_times w v n) = n"
  by (simp add: transposed_times_def)

lemma backward_rev_ok:
  assumes "successively (\<lambda>l p. follows p l) (l # ps)" and "list_all buffers_ok (l # ps)"
    and "a_grad l = Some g" and "length g = neuron_count l"
  shows "\<exists>rs'. backward_rev (l # ps) = (rs', None)
           \<and> list_all2 same_forward_state (l # ps) rs'
           \<and> a_grad (hd rs') = Some g
           \<and> successively (\<lambda>l p. layer_gradients p l) rs'"
  using assms
proof (induction ps arbitrary: l g)
  case Nil
  then show ?case by (simp add: same_forward_state_def same_layer_def)
next
  case (Cons p ps)
  from Cons.prems(1) obtain w where w: "weights l = Some w"
    "has_shape w (neuron_count l) (neuron_count p)"
    by (auto simp: follows_def split: option.splits)
  have "buffers_ok l" using Cons.prems(2) by simp
  then have bl: "0 < neuron_count l" "length (z l) = neuron_count l"
    by (simp_all add: buffers_ok_def)
  let ?zg = "map2 (*) (act_derivative (activation_func l) (z l)) g"
  let ?ag = "transposed_times w ?zg (neuron_count p)"
  let ?p1 = "p\<lparr>a_grad := Some ?ag\<rparr>"
  let ?l1 = "l\<lparr>z_grad := Some ?zg, w_grad := Some (np_outer ?zg (activations p))\<rparr>"
  have bw: "backward (Some p) l = (Some ?p1, ?l1, None)"
    by (rule backward_explicit[OF w bl Cons.prems(3,4)])
  have s1: "successively (\<lambda>l p. follows p l) (?p1 # ps)"
    using Cons.prems(1) by (cases ps) (auto simp: follows_def split: option.splits)
  have "buffers_ok p" and bps: "list_all buffers_ok ps" using Cons.prems(2) by simp_all
  then have "buffers_ok ?p1" by (simp add: buffers_ok_def)
  with bps have b1: "list_all buffers_ok (?p1 # ps)" by simp
  from Cons.IH[OF s1 b1, of ?ag] obtain rs' where rs':
    "backward_rev (?p1 # ps) = (rs', None)" "list_all2 same_forward_state (?p1 # ps) rs'"
    "a_grad (hd rs') = Some ?ag" "successively (\<lambda>l p. layer_gradients p l) rs'"
    by (auto simp: transposed_times_length)
  from rs'(2) obtain q qs where q: "rs' = q # qs" "same_forward_state ?p1 q"
    "list_all2 same_forward_state ps qs"
    by (cases rs') auto
  have pq: "same_forward_state p q" using q(2) by (simp add: same_forward_state_def same_layer_def)
  have lg: "layer_gradients q ?l1"
    using w Cons.prems(3) rs'(3) q(1) pq
    by (simp add: layer_gradients_def same_forward_state_def same_layer_def)
  have "backward_rev (l # p # ps) = (?l1 # rs', None)"
    using bw rs'(1) by simp
  moreover have "list_all2 same_forward_state (l # p # ps) (?l1 # rs')"
    using q pq by (simp add: same_forward_state_def same_layer_def)
  moreover have "a_grad (hd (?l1 # rs')) = Some g" using Cons.prems(3) by simp
  moreover have "successively (\<lambda>l p. layer_gradients p l) (?l1 # rs')"
    using lg rs'(4) q(1) by simp
  ultimately show ?case by blast
qed

lemma collect_gradient_ok:
  "successively layer_gradients (p # ls) \<Longrightarrow>
   \<exists>gr. collect_gradient ls = Inr gr
     \<and> map (\<lambda>l. (w_grad l, z_grad l)) ls = map (\<lambda>(w, b). (Some w, Some b)) gr"
proof (induction ls arbitrary: p)
  case Nil
  show ?case by simp
next
  case (Cons l ls)
  from Cons.prems have lg: "layer_gradients p l" and rest: "successively layer_gradients (l # ls)"
    by simp_all
  from lg obtain wg zg where g: "w_grad l = Some wg" "z_grad l = Some zg"
    by (auto simp: layer_gradients_def split: option.splits)
  from Cons.IH[OF rest] obtain gr where gr: "collect_gradient ls = Inr gr"
    "map (\<lambda>l. (w_grad l, z_grad l)) ls = map (\<lambda>(w, b). (Some w, Some b)) gr"
    by blast
  have "collect_gradient (l # ls) = Inr ((wg, zg) # gr)" using g gr(1) by simp
  moreover have "map (\<lambda>l. (w_grad l, z_grad l)) (l # ls) = map (\<lambda>(w, b). (Some w, Some b)) ((wg, zg) # gr)"
    using g gr(2) by simp
  ultimately show ?case by blast
qed

lemma loss_derivative_same_length:
  "length p = length t \<Longrightarrow> \<exists>d. loss_derivative f p t = Inr d \<and> length d = length p"
  by (cases f) (simp_all add: broadcast1_def clip_eps_def np_clip_def)

lemma follows_a_grad_update:
  "successively (\<lambda>l p. follows p l) (l # ps) \<Longrightarrow>
   successively (\<lambda>l p. follows p l) (l\<lparr>a_grad := g\<rparr> # ps)"
  by (cases ps) (auto simp: follows_def split: option.splits)

lemma rev_last_tl: "xs \<noteq> [] \<Longrightarrow> rev xs = last xs # tl (rev xs)"
  by (cases xs rule: rev_cases) simp_all

lemma backprop_ok:
  assumes wf: "wf_network nn" and lf: "loss_func nn = Loss f"
    and len: "length targets = neuron_count (last (layers nn))"
  shows "\<exists>nn' gr d. backprop nn targets = (nn', Inr gr)
           \<and> loss_derivative f (activations (last (layers nn))) targets = Inr d
           \<and> a_grad (last (layers nn')) = Some d
           \<and> list_all2 same_forward_state (layers nn) (layers nn')
           \<and> successively layer_gradients (layers nn')
           \<and> map (\<lambda>l. (w_grad l, z_grad l)) (tl (layers nn')) = map (\<lambda>(w, b). (Some w, Some b)) gr"
proof -
  from wf obtain l0 ls where l: "layers nn = l0 # ls"
    by (cases "layers nn") (auto simp: wf_network_def)
  define out where "out = last (layers nn)"
  define rest where "rest = tl (rev (layers nn))"
  have rv: "rev (layers nn) = out # rest"
    unfolding out_def rest_def using l by (intro rev_last_tl) simp
  have ball: "list_all buffers_ok (rev (layers nn))"
    using wf by (simp add: wf_network_def list_all_iff)
  then have bo: "buffers_ok out" using rv by simp
  have "length (activations out) = length targets"
    using bo len by (simp add: buffers_ok_def out_def)
  from loss_derivative_same_length[OF this, of f] obtain d where
    d: "loss_derivative f (activations out) targets = Inr d" "length d = neuron_count out"
    using bo by (auto simp: buffers_ok_def)
  let ?out = "out\<lparr>a_grad := Some d\<rparr>"
  have "successively follows (layers nn)"
    using wf l by (simp add: wf_network_def shape_invariant_def owns_parameters_successively)
  then have "successively (\<lambda>l p. follows p l) (out # rest)"
    using rv[symmetric] by simp
  then have s: "successively (\<lambda>l p. follows p l) (?out # rest)"
    by (rule follows_a_grad_update)
  have "buffers_ok ?out" using bo by (simp add: buffers_ok_def)
  then have b: "list_all buffers_ok (?out # rest)" using ball rv by simp
  from backward_rev_ok[OF s b, of d] d(2) obtain rs' where rs':
    "backward_rev (?out # rest) = (rs', None)" "list_all2 same_forward_state (?out # rest) rs'"
    "a_grad (hd rs') = Some d" "successively (\<lambda>l p. layer_gradients p l) rs'"
    by auto
  from rs'(2) obtain q qs where q: "rs' = q # qs" "same_forward_state ?out q"
    "list_all2 same_forward_state rest qs"
    by (cases rs') auto
  have "same_forward_state out q" using q(2) by (simp add: same_forward_state_def same_layer_def)
  with q have "list_all2 same_forward_state (out # rest) rs'" by simp
  then have "list_all2 same_forward_state (rev (rev (layers nn))) (rev rs')"
    unfolding rv by (rule list_all2_rev1[THEN iffD2, OF _] | simp only: list_all2_rev)
  then have same: "list_all2 same_forward_state (layers nn) (rev rs')"
    by (simp only: rev_rev_ident)
  have sg: "successively layer_gradients (rev rs')" using rs'(4) by simp
  have lastq: "last (rev rs') = hd rs'" using q(1) by simp
  from same l obtain r0 rr where r: "rev rs' = r0 # rr" by (cases "rev rs'") auto
  from collect_gradient_ok[of r0 rr] sg r obtain gr where gr:
    "collect_gradient rr = Inr gr"
    "map (\<lambda>l. (w_grad l, z_grad l)) rr = map (\<lambda>(w, b). (Some w, Some b)) gr"
    by auto
  have bp: "backprop nn targets = (nn\<lparr>layers := rev rs'\<rparr>, Inr gr)"
    using rv lf d(1) rs'(1) r gr(1) by (simp add: backprop_def)
  show ?thesis
    using bp d(1) rs'(3) lastq same sg gr(2) r by (simp add: out_def)
qed

text \<open>
  Claim C1. When \<open>backward\<close> runs on a non-input layer whose \<open>a_grad\<close> is set (and as long
  as the layer), \<open>z_grad\<close> becomes the elementwise product of the activation function's
  derivative at the cached \<open>z\<close> with \<open>a_grad\<close>, \<open>w_grad\<close> the outer product of \<open>z_grad\<close>
  with the predecessor's activations, and the predecessor's \<open>a_grad\<close> the transposed weight
  matrix times \<open>z_grad\<close>. On a well-formed network and a target as long as the output
  layer, \<open>backprop\<close> sets the output layer's \<open>a_grad\<close> to the loss derivative, leaves every
  layer satisfying these equations with its predecessor, changes nothing but gradient
  buffers, and returns for the non-input layers, in forward order, the pairs
  \<open>(w_grad, z_grad)\<close>: the bias gradient is the layer's \<open>z_grad\<close> itself.
\<close>

theorem backward_and_backprop_gradients:
  "(weights l = Some w \<and> has_shape w (neuron_count l) (neuron_count p) \<and> 0 < neuron_count l
      \<and> length (z l) = neuron_count l \<and> a_grad l = Some g \<and> length g = neuron_count l
    \<longrightarrow> backward (Some p) l =
         (Some (p\<lparr>a_grad := Some (transposed_times w
                   (map2 (*) (act_derivative (activation_func l) (z l)) g) (neuron_count p))\<rparr>),
          l\<lparr>z_grad := Some (map2 (*) (act_derivative (activation_func l) (z l)) g),
            w_grad := Some (np_outer (map2 (*) (act_derivative (activation_func l) (z l)) g)
                              (activations p))\<rparr>,
          None))
   \<and> (wf_network nn \<and> loss_func nn = Loss f
        \<and> length targets = neuron_count (last (layers nn))
      \<longrightarrow> (\<exists>nn' gr d. backprop nn targets = (nn', Inr gr)
             \<and> loss_derivative f (activations (last (layers nn))) targets = Inr d
             \<and> a_grad (last (layers nn')) = Some d
             \<and> list_all2 same_forward_state (layers nn) (layers nn')
             \<and> successively layer_gradients (layers nn')
             \<and> map (\<lambda>l. (w_grad l, z_grad l)) (tl (layers nn'))
                 = map (\<lambda>(w, b). (Some w, Some b)) gr))"
  using backward_explicit[of l w p g] backprop_ok[of nn f targets] by blast

lemma example_predicted_wf: "wf_network (fst (predict example_network [1, 2]))"
  using predict_wf[of example_network "[1, 2]"] example_network_wf
  by (simp add: example_network_def example_input_layer_def)

theorem backward_and_backprop_gradients_witness:
  "(weights (example_output_layer\<lparr>a_grad := Some [9]\<rparr>) = Some [[1, - 1]]
    \<and> has_shape [[1, - 1]] (neuron_count (example_output_layer\<lparr>a_grad := Some [9]\<rparr>))
         (neuron_count example_hidden_layer)
    \<and> 0 < neuron_count (example_output_layer\<lparr>a_grad := Some [9]\<rparr>)
    \<and> length (z (example_output_layer\<lparr>a_grad := Some [9]\<rparr>))
        = neuron_count (example_output_layer\<lparr>a_grad := Some [9]\<rparr>)
    \<and> a_grad (example_output_layer\<lparr>a_grad := Some [9]\<rparr>) = Some [9]
    \<and> length [9 :: real] = neuron_count (example_output_layer\<lparr>a_grad := Some [9]\<rparr>)
    \<and> backward (Some example_hidden_layer) (example_output_layer\<lparr>a_grad := Some [9]\<rparr>) =
         (Some (example_hidden_layer\<lparr>a_grad := Some [9 / 10, - 9 / 10]\<rparr>),
          example_output_layer\<lparr>a_grad := Some [9], z_grad := Some [9 / 10],
            w_grad := Some [[0, 0]]\<rparr>,
          None))
   \<and> (wf_network (fst (predict example_network [1, 2]))
      \<and> loss_func (fst (predict example_network [1, 2])) = Loss MeanSquareError
      \<and> length [1 :: real] = neuron_count (last (layers (fst (predict example_network [1, 2]))))
      \<and> (\<exists>nn' gr d. backprop (fst (predict example_network [1, 2])) [1] = (nn', Inr gr)
             \<and> loss_derivative MeanSquareError
                  (activations (last (layers (fst (predict example_network [1, 2]))))) [1] = Inr d
             \<and> a_grad (last (layers nn')) = Some d
             \<and> list_all2 same_forward_state (layers (fst (predict example_network [1, 2]))) (layers nn')
             \<and> successively layer_gradients (layers nn')
             \<and> map (\<lambda>l. (w_grad l, z_grad l)) (tl (layers nn'))
                 = map (\<lambda>(w, b). (Some w, Some b)) gr)
      \<and> snd (backprop (fst (predict example_network [1, 2])) [1])
           = Inr [([[9, 18], [0, 0]], [9, 0]), ([[45, 0]], [9])])"
proof -
  have lf: "loss_func (fst (predict example_network [1, 2])) = Loss MeanSquareError"
    and ln: "length [1 :: real] = neuron_count (last (layers (fst (predict example_network [1, 2]))))"
    and ev: "snd (backprop (fst (predict example_network [1, 2])) [1])
           = Inr [([[9, 18], [0, 0]], [9, 0]), ([[45, 0]], [9])]"
    by (simp_all add: example_network_def example_input_layer_def example_hidden_layer_def
        example_output_layer_def predict_def backprop_def np_dot_def broadcast1_def
        inplace1_def np_outer_def np_T_def)
  have bw: "backward (Some example_hidden_layer) (example_output_layer\<lparr>a_grad := Some [9]\<rparr>) =
         (Some (example_hidden_layer\<lparr>a_grad := Some [9 / 10, - 9 / 10]\<rparr>),
          example_output_layer\<lparr>a_grad := Some [9], z_grad := Some [9 / 10],
            w_grad := Some [[0, 0]]\<rparr>,
          None)"
    by (simp add: example_hidden_layer_def example_output_layer_def np_dot_def inplace1_def
        np_outer_def np_T_def leak_def)
  show ?thesis
    using backward_and_backprop_gradients
      [of "example_output_layer\<lparr>a_grad := Some [9]\<rparr>" "[[1, - 1]]" example_hidden_layer "[9]"
          "fst (predict example_network [1, 2])" MeanSquareError "[1]"]
      example_predicted_wf lf ln ev bw
    by (simp add: example_output_layer_def example_hidden_layer_def has_shape_def)
qed

subsection \<open>Training\<close>

text \<open>
  Claim C7. On an empty dataset, and on a validation split below 0 or not below 1, \<open>train\<close>
  raises the library's \<^verbatim>\<open>ValueError\<close> (the spec's ConfigurationError) and the network and
  the random stream it leaves behind are the ones it was given: nothing was shuffled,
  predicted or differentiated, and no weight, bias or cost has changed.
\<close>

theorem train_rejects_bad_arguments:
  assumes "dataset = [] \<or> validation_split < 0 \<or> 1 \<le> validation_split"
  shows "train nn g dataset epochs batch_size learning_rate validation_split =
     (nn, g, Some (ValueError (if dataset = [] then empty_dataset_msg else validation_split_msg)))"
  using assms by (auto simp: train_def)

theorem train_rejects_bad_arguments_witness:
  "train example_network (\<lambda>k. k) [] 10 (- 1) (1 / 1000) (15 / 100) =
     (example_network, \<lambda>k. k, Some (ValueError empty_dataset_msg))
   \<and> train example_network (\<lambda>k. k) [([1, 2], [1])] 10 (- 1) (1 / 1000) (3 / 2) =
     (example_network, \<lambda>k. k, Some (ValueError validation_split_msg))
   \<and> train example_network (\<lambda>k. k) [([1, 2], [1])] 10 (- 1) (1 / 1000) (- 1 / 4) =
     (example_network, \<lambda>k. k, Some (ValueError validation_split_msg))"
  using train_rejects_bad_arguments [of "[]" "15 / 100" example_network "\<lambda>k. k" 10 "- 1" "1 / 1000"]
    train_rejects_bad_arguments [of "[([1, 2], [1])]" "3 / 2" example_network "\<lambda>k. k" 10 "- 1" "1 / 1000"]
    train_rejects_bad_arguments [of "[([1, 2], [1])]" "- 1 / 4" example_network "\<lambda>k. k" 10 "- 1" "1 / 1000"]
  by simp

subsection \<open>The shape invariant\<close>

lemma same_shape_refl: "same_shape a a"
  by (simp add: same_shape_def option.rel_refl list.rel_refl)

lemma same_shape_trans: "same_shape a b \<Longrightarrow> same_shape b c \<Longrightarrow> same_shape a c"
  unfolding same_shape_def
  by (cases "weights a"; cases "weights b"; cases "weights c";
      cases "biases a"; cases "biases b"; cases "biases c")
     (auto simp: list_all2_conv_all_nth)

lemma same_layer_same_shape: "same_layer a b \<Longrightarrow> same_shape a b"
  by (simp add: same_layer_def same_shape_def option.rel_refl list.rel_refl)

lemma shape_kept_refl: "shape_kept nn nn"
  by (simp add: shape_kept_def list.rel_refl same_shape_refl)

lemma list_all2_same_shape_trans:
  "list_all2 same_shape xs ys \<Longrightarrow> list_all2 same_shape ys zs \<Longrightarrow> list_all2 same_shape xs zs"
  by (rule list_all2_trans[of same_shape same_shape same_shape]) (auto intro: same_shape_trans)

lemma shape_kept_trans: "shape_kept a b \<Longrightarrow> shape_kept b c \<Longrightarrow> shape_kept a c"
  unfolding shape_kept_def by (rule list_all2_same_shape_trans)

lemma has_shape_rows_eq:
  "list_all2 (\<lambda>r s. length r = length s) w w' \<Longrightarrow> has_shape w r c \<Longrightarrow> has_shape w' r c"
  by (auto simp: has_shape_def list_all2_conv_all_nth list_all_length)

lemma owns_parameters_same_shape:
  "list_all2 same_shape ls ls' \<Longrightarrow> neuron_count p = neuron_count p' \<Longrightarrow>
   owns_parameters p ls \<Longrightarrow> owns_parameters p' ls'"
proof (induction ls ls' arbitrary: p p' rule: list_all2_induct)
  case Nil
  show ?case by simp
next
  case (Cons l ls l' ls')
  from Cons.prems(2) obtain w b where wb: "weights l = Some w" "biases l = Some b"
    "has_shape w (neuron_count l) (neuron_count p)" "length b = neuron_count l"
    "owns_parameters l ls"
    by (auto split: option.splits)
  from Cons.hyps(1) wb(1,2) obtain w' b' where wb': "weights l' = Some w'" "biases l' = Some b'"
    "list_all2 (\<lambda>r s. length r = length s) w w'" "length b = length b'"
    "neuron_count l = neuron_count l'"
    by (auto simp: same_shape_def option_rel_Some1)
  have "has_shape w' (neuron_count l') (neuron_count p')"
    using has_shape_rows_eq[OF wb'(3) wb(3)] wb'(5) Cons.prems(1) by simp
  moreover have "owns_parameters l' ls'" by (rule Cons.IH[OF wb'(5) wb(5)])
  ultimately show ?case using wb' wb(4) by simp
qed

lemma shape_invariant_kept:
  assumes "shape_kept nn nn'" "shape_invariant nn"
  shows "shape_invariant nn'"
proof (cases "layers nn")
  case Nil
  then show ?thesis using assms by (simp add: shape_kept_def shape_invariant_def)
next
  case (Cons l0 ls)
  with assms(1) obtain l0' ls' where l': "layers nn' = l0' # ls'" "same_shape l0 l0'"
    "list_all2 same_shape ls ls'"
    by (auto simp: shape_kept_def list_all2_Cons1)
  have "owns_parameters l0' ls'"
    using owns_parameters_same_shape[OF l'(3), of l0 l0'] l'(2) assms(2) Cons
    by (simp add: shape_invariant_def same_shape_def)
  moreover have "weights l0' = None" "biases l0' = None"
    using l'(2) assms(2) Cons by (auto simp: shape_invariant_def same_shape_def)
  ultimately show ?thesis using l'(1) by (simp add: shape_invariant_def)
qed

lemma predict_layers:
  "layers (fst (predict nn x)) =
     (case layers nn of
        [] \<Rightarrow> []
      | l0 # ls \<Rightarrow>
          if length (activations l0) \<noteq> length x then l0 # ls
          else l0\<lparr>activations := x\<rparr> # fst (forward_layers (l0\<lparr>activations := x\<rparr>) ls))"
  by (simp add: predict_def Let_def split: list.splits prod.splits option.splits)

lemma predict_shape_kept: "shape_kept nn (fst (predict nn x))"
proof (cases "layers nn")
  case Nil
  then show ?thesis by (simp add: shape_kept_def predict_layers)
next
  case (Cons l0 ls)
  have "list_all2 same_shape ls (fst (forward_layers (l0\<lparr>activations := x\<rparr>) ls))"
    using forward_layers_same_layer[of ls "l0\<lparr>activations := x\<rparr>"]
    by (rule list_all2_mono) (rule same_layer_same_shape)
  moreover have "same_shape l0 (l0\<lparr>activations := x\<rparr>)"
    by (simp add: same_shape_def option.rel_refl list.rel_refl)
  ultimately show ?thesis using Cons
    by (simp add: shape_kept_def predict_layers list.rel_refl same_shape_refl)
qed

lemma backward_same_layer:
  "backward po l = (po', l', r) \<Longrightarrow>
   same_layer l l' \<and> (case po of None \<Rightarrow> po' = None | Some p \<Rightarrow> (\<exists>p'. po' = Some p' \<and> same_layer p p'))"
  by (cases po) (auto simp: Let_def same_layer_def split: option.splits sum.splits)

lemma list_all2_same_layer_refl: "list_all2 same_layer xs xs"
  by (simp add: list.rel_refl same_layer_def)

lemma same_layer_trans: "same_layer a b \<Longrightarrow> same_layer b c \<Longrightarrow> same_layer a c"
  by (simp add: same_layer_def)

lemma backward_rev_step:
  "backward (Some p) l = (po, l', r) \<Longrightarrow>
   backward_rev (l # p # ps) =
     (case r of
        Some e \<Rightarrow> (l' # (case po of None \<Rightarrow> p | Some p' \<Rightarrow> p') # ps, Some e)
      | None \<Rightarrow> (l' # fst (backward_rev ((case po of None \<Rightarrow> p | Some p' \<Rightarrow> p') # ps)),
                 snd (backward_rev ((case po of None \<Rightarrow> p | Some p' \<Rightarrow> p') # ps))))"
  by (simp del: backward.simps split: option.splits prod.splits)

lemma backward_rev_same_layer: "list_all2 same_layer rs (fst (backward_rev rs))"
proof (induction rs rule: length_induct)
  case (1 rs)
  show ?case
  proof (cases rs)
    case Nil
    then show ?thesis by simp
  next
    case (Cons l ps)
    show ?thesis
    proof (cases ps)
      case Nil
      then show ?thesis using Cons by (simp add: same_layer_def)
    next
      case (Cons p qs)
      obtain po l' r where bw: "backward (Some p) l = (po, l', r)"
        by (cases "backward (Some p) l") auto
      from backward_same_layer[OF bw] obtain p' where p': "po = Some p'" "same_layer p p'"
        "same_layer l l'"
        by auto
      show ?thesis
      proof (cases r)
        case (Some e)
        then show ?thesis using p' \<open>rs = l # ps\<close> Cons
          by (simp add: backward_rev_step[OF bw] list_all2_same_layer_refl del: backward_rev.simps)
      next
        case None
        have IH: "list_all2 same_layer (p' # qs) (fst (backward_rev (p' # qs)))"
          using "1.IH" \<open>rs = l # ps\<close> Cons by simp
        then obtain q qs' where q: "fst (backward_rev (p' # qs)) = q # qs'" "same_layer p' q"
          "list_all2 same_layer qs qs'"
          by (auto simp: list_all2_Cons1)
        have "same_layer p q" using p'(2) q(2) by (rule same_layer_trans)
        then show ?thesis using None p' \<open>rs = l # ps\<close> Cons q
          by (simp add: backward_rev_step[OF bw] del: backward_rev.simps)
      qed
    qed
  qed
qed

lemma backprop_layers:
  "layers (fst (backprop nn t)) = layers nn \<or>
   (\<exists>out rest d. rev (layers nn) = out # rest
      \<and> layers (fst (backprop nn t)) = rev (fst (backward_rev (out\<lparr>a_grad := Some d\<rparr> # rest))))"
proof (cases "rev (layers nn)")
  case Nil
  then show ?thesis by (simp add: backprop_def)
next
  case (Cons out rest)
  show ?thesis
  proof (cases "\<exists>f. loss_func nn = Loss f")
    case False
    then show ?thesis using Cons by (cases "loss_func nn") (simp_all add: backprop_def)
  next
    case True
    then obtain f where Some: "loss_func nn = Loss f" by blast
    show ?thesis
    proof (cases "loss_derivative f (activations out) t")
      case (Inl e)
      then show ?thesis using Cons Some by (simp add: backprop_def)
    next
      case (Inr d)
      have "layers (fst (backprop nn t)) = rev (fst (backward_rev (out\<lparr>a_grad := Some d\<rparr> # rest)))"
        using Cons Some Inr
        by (cases "backward_rev (out\<lparr>a_grad := Some d\<rparr> # rest)")
           (simp add: backprop_def del: backward_rev.simps split: option.splits)
      then show ?thesis using Cons by blast
    qed
  qed
qed

lemma backprop_shape_kept: "shape_kept nn (fst (backprop nn t))"
proof -
  from backprop_layers[of nn t] show ?thesis
  proof
    assume "layers (fst (backprop nn t)) = layers nn"
    then show ?thesis by (simp add: shape_kept_def list.rel_refl same_shape_refl)
  next
    assume "\<exists>out rest d. rev (layers nn) = out # rest
      \<and> layers (fst (backprop nn t)) = rev (fst (backward_rev (out\<lparr>a_grad := Some d\<rparr> # rest)))"
    then obtain out rest d where o: "rev (layers nn) = out # rest"
      "layers (fst (backprop nn t)) = rev (fst (backward_rev (out\<lparr>a_grad := Some d\<rparr> # rest)))"
      by blast
    let ?rs = "fst (backward_rev (out\<lparr>a_grad := Some d\<rparr> # rest))"
    have "list_all2 same_layer (out\<lparr>a_grad := Some d\<rparr> # rest) ?rs"
      by (rule backward_rev_same_layer)
    then obtain q qs where q: "?rs = q # qs" "same_layer (out\<lparr>a_grad := Some d\<rparr>) q"
      "list_all2 same_layer rest qs"
      by (auto simp: list_all2_Cons1)
    have "same_layer out q" using q(2) by (simp add: same_layer_def)
    with q have "list_all2 same_layer (out # rest) ?rs" by simp
    then have "list_all2 same_shape (rev (layers nn)) ?rs"
      unfolding o(1)[symmetric] by (rule list_all2_mono) (rule same_layer_same_shape)
    then have "list_all2 same_shape (rev (rev (layers nn))) (rev ?rs)"
      by (simp only: list_all2_rev)
    then show ?thesis using o(2) by (simp add: shape_kept_def)
  qed
qed

lemma inplace1_length: "inplace1 f a b = Inr r \<Longrightarrow> length r = length a"
  by (auto simp: inplace1_def split: if_splits)

lemma inplace_rows_shape:
  "inplace_rows f a b = Inr r \<Longrightarrow> list_all2 (\<lambda>x y. length x = length y) a r"
  by (induction f a b arbitrary: r rule: inplace_rows.induct)
     (auto split: sum.splits dest: inplace1_length)

lemma inplace2_shape:
  "inplace2 f a b = Inr r \<Longrightarrow> list_all2 (\<lambda>x y. length x = length y) a r"
  by (auto simp: inplace2_def split: if_splits dest: inplace_rows_shape)

lemma same_shape_update:
  "weights l = Some w \<Longrightarrow> list_all2 (\<lambda>x y. length x = length y) w w' \<Longrightarrow>
   same_shape l (l\<lparr>weights := Some w'\<rparr>)"
  "biases l = Some b \<Longrightarrow> length b' = length b \<Longrightarrow> same_shape l (l\<lparr>biases := Some b'\<rparr>)"
  by (simp_all add: same_shape_def option.rel_refl list.rel_refl)

lemma apply_update_same_shape: "same_shape l (fst (apply_update l wu bu))"
proof -
  have a: "same_shape l (l\<lparr>weights := Some w'\<rparr>)"
    if "weights l = Some w" "inplace2 (-) w wu = Inr w'" for w w'
    using same_shape_update(1)[OF that(1) inplace2_shape[OF that(2)]] .
  have b: "same_shape l (l\<lparr>weights := Some w', biases := Some b'\<rparr>)"
    if "weights l = Some w" "inplace2 (-) w wu = Inr w'" "biases l = Some b"
       "inplace1 (-) b bu = Inr b'" for w w' b b'
    using inplace2_shape[OF that(2)] inplace1_length[OF that(4)] that(1,3)
    by (simp add: same_shape_def)
  show ?thesis
    by (auto simp: apply_update_def same_shape_refl a b split: option.splits sum.splits)
qed

lemma list_all2_same_shape_refl: "list_all2 same_shape xs xs"
  by (simp add: list.rel_refl same_shape_refl)

lemma update_layers_same_shape: "list_all2 same_shape ls (fst (update_layers ls gr lr))"
proof (induction ls gr lr rule: update_layers.induct)
  case (1 gr lr)
  show ?case by simp
next
  case (2 l ls lr)
  show ?case by (simp add: list_all2_same_shape_refl same_shape_refl)
next
  case (3 l ls weights_grad biases_grad gr lr)
  show ?case
  proof (cases "weights l")
    case None
    then show ?thesis by (simp add: list_all2_same_shape_refl same_shape_refl)
  next
    case (Some w)
    note w = this
    show ?thesis
    proof (cases "inplace2 (-) w (scale2 lr (np_clip2 (- 1) 1 weights_grad))")
      case (Inl e)
      then show ?thesis using w by (simp add: list_all2_same_shape_refl same_shape_refl)
    next
      case (Inr w')
      note w' = this
      have sw: "same_shape l (l\<lparr>weights := Some w'\<rparr>)"
        by (rule same_shape_update(1)[OF w inplace2_shape[OF w']])
      show ?thesis
      proof (cases "biases l")
        case None
        then show ?thesis using w w' sw by (simp add: list_all2_same_shape_refl same_shape_refl)
      next
        case (Some b)
        note b = this
        show ?thesis
        proof (cases "inplace1 (-) b (map (\<lambda>x. x * lr) (np_clip (- 1) 1 biases_grad))")
          case (Inl e)
          then show ?thesis using w w' b sw by (simp add: list_all2_same_shape_refl same_shape_refl)
        next
          case (Inr b')
          have "same_shape l (l\<lparr>weights := Some w', biases := Some b'\<rparr>)"
            using inplace2_shape[OF w'] inplace1_length[OF Inr] w b
            by (simp add: same_shape_def)
          then show ?thesis using w w' b Inr "3.IH"[OF w w' b Inr]
            by (simp add: case_prod_unfold)
        qed
      qed
    qed
  qed
qed

lemma update_weights_shape_kept: "shape_kept nn (fst (update_weights nn gr lr))"
proof (cases "layers nn")
  case Nil
  then show ?thesis by (simp add: update_weights_def shape_kept_def)
next
  case (Cons l0 ls)
  then show ?thesis using update_layers_same_shape[of ls gr lr]
    by (simp add: update_weights_def shape_kept_def same_shape_refl case_prod_unfold)
qed

lemma adam_layers_same_shape: "list_all2 same_shape ls (fst (adam_layers lr t gs ms vs ls))"
proof (induction lr t gs ms vs ls rule: adam_layers.induct)
  case (1 lr t m_t v_t ls)
  show ?case by (simp add: list_all2_same_shape_refl same_shape_refl)
next
  case (2 lr t g gs v_t ls)
  show ?case by (simp add: list_all2_same_shape_refl same_shape_refl)
next
  case (3 lr t g gs m ms ls)
  show ?case by (simp add: list_all2_same_shape_refl same_shape_refl)
next
  case (4 lr t g gs m ms v vs ls)
  show ?case
  proof (cases "adam_moments lr t g m v")
    case (Inl e)
    then show ?thesis by (simp add: list_all2_same_shape_refl same_shape_refl)
  next
    case (Inr r)
    then obtain m' v' wu bu where r: "adam_moments lr t g m v = Inr (m', v', wu, bu)"
      by (cases r) auto
    show ?thesis
    proof (cases ls)
      case Nil
      then show ?thesis using r by simp
    next
      case (Cons l ls')
      obtain l' eo where au: "apply_update l wu bu = (l', eo)"
        by (cases "apply_update l wu bu") auto
      have sl: "same_shape l l'" using apply_update_same_shape[of l wu bu] au by simp
      show ?thesis
      proof (cases eo)
        case (Some e)
        then show ?thesis using r Cons au sl by (simp add: list_all2_same_shape_refl same_shape_refl)
      next
        case None
        have "list_all2 same_shape ls' (fst (adam_layers lr t gs ms vs ls'))"
          by (rule "4.IH"[OF r refl refl refl Cons au[symmetric] None])
        then show ?thesis using r Cons au sl None
          by (cases "adam_layers lr t gs ms vs ls'"; cases "snd (adam_layers lr t gs ms vs ls')")
             (auto simp: case_prod_unfold)
      qed
    qed
  qed
qed

lemma batch_examples_shape_kept:
  "shape_kept nn (fst (batch_examples nn cost_sum count gradient_sum batch))"
proof (induction batch arbitrary: nn cost_sum count gradient_sum)
  case Nil
  show ?case by (simp add: shape_kept_refl)
next
  case (Cons ex batch)
  obtain inputs targets where ex: "ex = (inputs, targets)" by (cases ex) auto
  obtain nn1 r1 where p: "predict nn inputs = (nn1, r1)" by (cases "predict nn inputs") auto
  have k1: "shape_kept nn nn1" using predict_shape_kept[of nn inputs] p by simp
  obtain nn2 r2 where b: "backprop nn1 targets = (nn2, r2)" by (cases "backprop nn1 targets") auto
  have k2: "shape_kept nn nn2"
    using shape_kept_trans[OF k1] backprop_shape_kept[of nn1 targets] b by simp
  have k3: "shape_kept nn (fst (batch_examples nn2 c n gs batch))" for c n gs
    using shape_kept_trans[OF k2 Cons.IH] .
  show ?case unfolding ex
    using p b k1 k2 k3
    by (simp split: sum.splits option.splits list.splits)
qed

lemma train_batch_shape_kept:
  "shape_kept nn (fst (train_batch lr batch nn m_t v_t t cost_sum count))"
proof -
  obtain nn1 r where be: "batch_examples nn cost_sum count None batch = (nn1, r)"
    by (cases "batch_examples nn cost_sum count None batch") auto
  have k1: "shape_kept nn nn1" using batch_examples_shape_kept[of nn cost_sum count None batch] be
    by simp
  have k2: "shape_kept nn (nn1\<lparr>layers := l0 # fst (adam_layers lr' t' gs ms vs ls)\<rparr>)"
    if "layers nn1 = l0 # ls" for l0 ls lr' t' gs ms vs
  proof -
    have "shape_kept nn1 (nn1\<lparr>layers := l0 # fst (adam_layers lr' t' gs ms vs ls)\<rparr>)"
      using that adam_layers_same_shape[of ls lr' t' gs ms vs]
      by (simp add: shape_kept_def same_shape_refl)
    with k1 show ?thesis by (rule shape_kept_trans)
  qed
  show ?thesis
    using be k1 k2
    by (auto simp: train_batch_def case_prod_unfold split: sum.splits option.splits list.splits)
qed

lemma train_batches_shape_kept:
  "shape_kept nn (fst (train_batches lr training_data batch_size starts nn m_t v_t t cost_sum count))"
proof (induction starts arbitrary: nn m_t v_t t cost_sum count)
  case Nil
  show ?case by (simp add: shape_kept_refl)
next
  case (Cons batch_start starts)
  let ?b = "train_batch lr (take batch_size (drop batch_start training_data)) nn m_t v_t t cost_sum count"
  have k1: "shape_kept nn (fst ?b)" by (rule train_batch_shape_kept)
  have k2: "shape_kept nn (fst (train_batches lr training_data batch_size starts (fst ?b) m v tt c n))"
    for m v tt c n
    using shape_kept_trans[OF k1 Cons.IH] .
  show ?case
    using k1 k2 by (cases ?b) (auto split: sum.splits)
qed

lemma validate_shape_kept:
  "shape_kept nn (fst (validate nn val_cost_sum val_count data))"
proof (induction data arbitrary: nn val_cost_sum val_count)
  case Nil
  show ?case by (simp add: shape_kept_refl)
next
  case (Cons ex data)
  obtain inputs targets where ex: "ex = (inputs, targets)" by (cases ex) auto
  have k1: "shape_kept nn (fst (predict nn inputs))" by (rule predict_shape_kept)
  have k2: "shape_kept nn (fst (validate (fst (predict nn inputs)) c n data))" for c n
    using shape_kept_trans[OF k1 Cons.IH] .
  show ?case unfolding ex using k1 k2
    by (cases "predict nn inputs") (auto split: sum.splits)
qed

lemma shape_kept_cost: "shape_kept nn (nn\<lparr>cost := c\<rparr>)"
  by (simp add: shape_kept_def list_all2_same_shape_refl)

lemma train_epoch_shape_kept:
  "shape_kept nn (fst (train_epoch lr batch_size validation_split training_data validation_data
     nn m_t v_t t))"
proof -
  let ?tb = "train_batches lr training_data batch_size
                (batch_starts (length training_data) batch_size) nn m_t v_t t 0 0"
  have k1: "shape_kept nn (fst ?tb)" by (rule train_batches_shape_kept)
  have k2: "shape_kept nn (fst ?tb\<lparr>cost := c\<rparr>)" for c
    using shape_kept_trans[OF k1 shape_kept_cost] .
  have k3: "shape_kept nn (fst (validate (fst ?tb\<lparr>cost := c\<rparr>) a b validation_data))" for a b c
    using shape_kept_trans[OF k2 validate_shape_kept] .
  show ?thesis
    using k1 k2 k3
    by (cases ?tb)
       (auto simp: train_epoch_def shape_kept_refl Let_def case_prod_unfold split: sum.splits)
qed

lemma train_epochs_shape_kept:
  "shape_kept nn (fst (train_epochs n lr batch_size validation_split training_data validation_data
     nn g m_t v_t t))"
proof (induction n arbitrary: training_data nn g m_t v_t t)
  case 0
  show ?case by (simp add: shape_kept_refl)
next
  case (Suc n)
  let ?td = "fst (shuffle g training_data)"
  let ?e = "train_epoch lr batch_size validation_split ?td validation_data nn m_t v_t t"
  have k1: "shape_kept nn (fst ?e)" by (rule train_epoch_shape_kept)
  have k2: "shape_kept nn (fst (train_epochs n lr batch_size validation_split td validation_data
              (fst ?e) g' m v tt))" for td g' m v tt
    using shape_kept_trans[OF k1 Suc.IH] .
  show ?case
    using k1 k2
    by (cases "shuffle g training_data"; cases ?e)
       (auto simp: case_prod_unfold split: sum.splits)
qed

lemma train_shape_kept:
  "shape_kept nn (fst (train nn g dataset epochs batch_size learning_rate validation_split))"
  by (auto simp: train_def shape_kept_refl Let_def case_prod_unfold train_epochs_shape_kept
      split: sum.splits)

lemma np_random_normal_shape: "has_shape (fst (np_random_normal g s r c)) r c"
  by (simp add: np_random_normal_def has_shape_def list_all_iff)

lemma has_shape_map_abs: "has_shape m r c \<Longrightarrow> has_shape (map (map abs) m) r c"
  by (simp add: has_shape_def list_all_iff)

lemma init_weights_shape: "init_weights f g n c = Inr (w, g') \<Longrightarrow> has_shape w n c"
proof (cases f)
  case Sigmoid
  assume "init_weights f g n c = Inr (w, g')"
  then have "w = fst (np_random_normal g (1 / sqrt (real n)) n c)" using Sigmoid by auto
  then show ?thesis by (simp only: np_random_normal_shape)
next
  case ReLU
  assume "init_weights f g n c = Inr (w, g')"
  then have "w = map (map abs) (fst (np_random_normal g (sqrt (2 / real n)) n c))"
    using ReLU by (auto simp: case_prod_unfold split: if_splits)
  then show ?thesis by (simp only: has_shape_map_abs[OF np_random_normal_shape])
next
  case LeakyReLU
  assume "init_weights f g n c = Inr (w, g')"
  then have "w = fst (np_random_normal g (sqrt (2 / real n)) n c)"
    using LeakyReLU by (auto split: if_splits)
  then show ?thesis by (simp only: np_random_normal_shape)
qed

lemma Layer_init_Some:
  assumes "Layer_init g n (Some p) f = Inr (l, g')"
  shows "int (neuron_count l) = n
         \<and> (case weights l of None \<Rightarrow> False
             | Some w \<Rightarrow> has_shape w (neuron_count l) (neuron_count p))
         \<and> (case biases l of None \<Rightarrow> False | Some b \<Rightarrow> length b = neuron_count l)
         \<and> length (z l) = neuron_count l \<and> length (activations l) = neuron_count l"
  using assms
  by (auto simp: Layer_init_def split: sum.splits if_splits dest: init_weights_shape)

lemma Layer_init_None:
  assumes "Layer_init g n None f = Inr (l, g')"
  shows "int (neuron_count l) = n \<and> weights l = None \<and> biases l = None
         \<and> length (z l) = neuron_count l \<and> length (activations l) = neuron_count l"
  using assms by (auto simp: Layer_init_def split: if_splits)

lemma build_layers_owns:
  "build_layers g p ns acts = Inr (ls, g') \<Longrightarrow>
   owns_parameters p ls \<and> map (\<lambda>l. int (neuron_count l)) ls = ns
   \<and> list_all (\<lambda>l. length (z l) = neuron_count l \<and> length (activations l) = neuron_count l) ls"
proof (induction g p ns acts arbitrary: ls g' rule: build_layers.induct)
  case (1 g p acts)
  then show ?case by simp
next
  case (2 g p n ns)
  then show ?case by simp
next
  case (3 g p n ns a acts)
  from "3.prems" obtain f where a: "a = Activation f" by (cases a) auto
  from "3.prems" a obtain l g1 where l: "Layer_init g n (Some p) f = Inr (l, g1)"
    by (cases "Layer_init g n (Some p) f") auto
  from "3.prems" a l obtain ls' where ls': "build_layers g1 l ns acts = Inr (ls', g')" "ls = l # ls'"
    by (cases "build_layers g1 l ns acts") auto
  from "3.IH"[OF a l refl ls'(1)] Layer_init_Some[OF l] ls'(2)
  show ?case by (auto split: option.splits)
qed

lemma NeuralNetwork_init_shape:
  assumes "NeuralNetwork_init g layer_neuron_counts activation loss = Inr (nn, g')"
  shows "shape_invariant nn
         \<and> map (\<lambda>l. int (neuron_count l)) (layers nn) = layer_neuron_counts
         \<and> list_all (\<lambda>l. length (z l) = neuron_count l \<and> length (activations l) = neuron_count l)
              (layers nn)"
proof -
  from assms obtain n0 ns where c: "layer_neuron_counts = n0 # ns"
    by (cases layer_neuron_counts) (auto simp: NeuralNetwork_init_def)
  define acts where "acts = (case activation of
                       One f \<Rightarrow> replicate (length layer_neuron_counts - 1) (Activation f)
                     | Several fs \<Rightarrow> fs)"
  from assms c obtain l0 g0 where l0: "Layer_init g n0 None default_activation = Inr (l0, g0)"
    by (cases "Layer_init g n0 None default_activation")
       (auto simp: NeuralNetwork_init_def Let_def split: if_splits)
  from assms c l0 obtain ls where ls: "build_layers g0 l0 ns acts = Inr (ls, g')"
    "nn = \<lparr>loss_func = loss, layers = l0 # ls, cost = - 1\<rparr>"
    unfolding acts_def
    by (cases "build_layers g0 l0 ns (case activation of
                       One f \<Rightarrow> replicate (length layer_neuron_counts - 1) (Activation f)
                     | Several fs \<Rightarrow> fs)")
       (auto simp: NeuralNetwork_init_def Let_def split: if_splits)
  from build_layers_owns[OF ls(1)] Layer_init_None[OF l0] ls(2) c
  show ?thesis by (simp add: shape_invariant_def)
qed

text \<open>
  Claim C6. The network that the constructor returns satisfies the shape invariant: the
  first layer owns no weights and no biases, every other layer a weight matrix of shape
  (own neuron count, previous neuron count) and a bias vector as long as its neuron count.
  The invariant holds again in the network that \<open>predict\<close>, \<open>backprop\<close>, \<open>update_weights\<close>
  and \<open>train\<close> leave behind, whatever their arguments and whether they return or raise.
\<close>

theorem parameter_shapes_invariant:
  "(NeuralNetwork_init g layer_neuron_counts activation loss = Inr (nn0, g') \<longrightarrow> shape_invariant nn0)
   \<and> (shape_invariant nn \<longrightarrow>
        shape_invariant (fst (predict nn inputs))
        \<and> shape_invariant (fst (backprop nn targets))
        \<and> shape_invariant (fst (update_weights nn gr lr))
        \<and> shape_invariant
            (fst (train nn rg dataset epochs batch_size learning_rate validation_split)))"
  using NeuralNetwork_init_shape[of g layer_neuron_counts activation loss nn0 g']
    shape_invariant_kept[OF predict_shape_kept, of nn inputs]
    shape_invariant_kept[OF backprop_shape_kept, of nn targets]
    shape_invariant_kept[OF update_weights_shape_kept, of nn gr lr]
    shape_invariant_kept[OF train_shape_kept,
      of nn rg dataset epochs batch_size learning_rate validation_split]
  by blast

lemma constructed_network_init:
  "NeuralNetwork_init (\<lambda>k. 1) [2, 1] (One Sigmoid) (Loss MeanSquareError)
     = Inr (constructed_network, \<lambda>k. 1)"
  by (simp add: NeuralNetwork_init_def Layer_init_def default_activation_def
      np_random_normal_def constructed_network_def eval_nat_numeral upt_rec)

theorem parameter_shapes_invariant_witness:
  "NeuralNetwork_init (\<lambda>k. 1) [2, 1] (One Sigmoid) (Loss MeanSquareError)
     = Inr (constructed_network, \<lambda>k. 1)
   \<and> shape_invariant constructed_network
   \<and> shape_invariant example_network
   \<and> shape_invariant (fst (predict example_network [1, 2]))
   \<and> shape_invariant (fst (backprop example_network [1]))
   \<and> shape_invariant (fst (update_weights example_network example_gradient (1 / 10)))
   \<and> shape_invariant (fst (train example_network (\<lambda>k. k) [([1, 2], [1])] 3 (- 1) (1 / 1000) 0))"
  using parameter_shapes_invariant
    [of "\<lambda>k. 1" "[2, 1]" "One Sigmoid" "Loss MeanSquareError" constructed_network "\<lambda>k. 1"
        example_network "[1, 2]" "[1]" example_gradient "1 / 10" "\<lambda>k. k" "[([1, 2], [1])]"
        3 "- 1" "1 / 1000" 0]
    constructed_network_init example_network_shape
  by simp

subsection \<open>Loading a saved model\<close>

text \<open>
  Claim C5. A file whose activation line holds the unknown name \<^verbatim>\<open>Tanh\<close> does not make
  \<open>load\<close> return "no model": the name resolves to \<^verbatim>\<open>None\<close>, the constructor hands it to
  the layer, and \<open>load\<close> raises \<^verbatim>\<open>AttributeError\<close>. A path that does not exist does give
  "no model".
\<close>

theorem load_unknown_activation_raises:
  "load flt [''model.ai'' \<mapsto> unknown_activation_file] g ''model.ai'' = Inl AttributeError
   \<and> load flt Map.empty g ''model.ai'' = Inr (None, g)"
  by (simp add: load_def load_header_def unknown_activation_file_def nl_def comma_def
      py_int_def strip_def is_space_def digits_ok.simps is_digit_def digits_value_def
      digit_value_def get_class_by_name_def NeuralNetwork_init_def Layer_init_def
      default_activation_def)

subsection \<open>Saving and loading\<close>

lemma split_nonempty: "split sep s \<noteq> []"
  by (induction sep s rule: split.induct) (auto split: list.splits)

lemma split_first:
  "sep \<noteq> [] \<Longrightarrow> no_occ sep x (sep @ r) \<Longrightarrow> split sep (x @ sep @ r) = x # split sep r"
proof (induction x)
  case Nil
  then obtain c cs where s: "sep = c # cs" by (cases sep) auto
  have "split sep (sep @ r) = [] # split sep (drop (length sep) (sep @ r))"
    unfolding s by simp
  then show ?case by simp
next
  case (Cons c x)
  then have "take (length sep) (c # x @ sep @ r) \<noteq> sep" and "no_occ sep x (sep @ r)"
    by simp_all
  then show ?case using Cons.IH[OF Cons.prems(1)] by simp
qed

lemma split_last: "no_occ sep x [] \<Longrightarrow> split sep x = [x]"
  by (induction x) simp_all

lemma split_concat:
  assumes "sep \<noteq> []"
  shows "(\<forall>y \<in> set (x # xs). \<forall>t. no_occ sep y t) \<Longrightarrow>
         split sep (x @ concat (map ((@) sep) xs)) = x # xs"
proof (induction xs arbitrary: x)
  case Nil
  then show ?case by (simp add: split_last)
next
  case (Cons y ys)
  have "split sep (x @ sep @ (y @ concat (map ((@) sep) ys))) =
        x # split sep (y @ concat (map ((@) sep) ys))"
    using Cons.prems by (intro split_first[OF assms]) simp
  moreover have "split sep (y @ concat (map ((@) sep) ys)) = y # ys"
    using Cons.prems by (intro Cons.IH) auto
  ultimately show ?case by simp
qed

lemma join_concat: "join sep (x # xs) = x @ concat (map ((@) sep) xs)"
  by (induction xs arbitrary: x) simp_all

lemma no_occ_char: "c \<notin> set x \<Longrightarrow> no_occ [c] x t"
  by (induction x) auto

lemma no_occ_calm: "calm x \<Longrightarrow> no_occ [nl, nl] x t"
proof (induction x)
  case Nil
  then show ?case by simp
next
  case (Cons c x)
  show ?case
  proof (cases x)
    case Nil
    then show ?thesis using Cons.prems by (simp add: calm_def)
  next
    case (Cons d y)
    then have "calm x" using Cons.prems by (simp add: calm_def)
    then have "no_occ [nl, nl] x t" by (rule Cons.IH)
    moreover have "\<not> (c = nl \<and> d = nl)" using Cons.prems Cons by (simp add: calm_def)
    ultimately show ?thesis using Cons by auto
  qed
qed

lemma split_join_char:
  assumes "xs \<noteq> []" "\<forall>y \<in> set xs. c \<notin> set y"
  shows "split [c] (join [c] xs) = xs"
proof -
  from assms(1) obtain x ys where xs: "xs = x # ys" by (cases xs) auto
  show ?thesis unfolding xs join_concat
    using assms(2) xs by (intro split_concat) (auto intro: no_occ_char)
qed

lemma join_set: "set (join sep xs) \<subseteq> set sep \<union> \<Union> (set ` set xs)"
  by (induction sep xs rule: join.induct) auto

lemma join_nonempty: "xs \<noteq> [] \<Longrightarrow> \<forall>y \<in> set xs. y \<noteq> [] \<Longrightarrow> join sep xs \<noteq> []"
  by (induction sep xs rule: join.induct) auto

lemma join_comma_line_ok:
  assumes "xs \<noteq> []" "\<forall>y \<in> set xs. token_ok y"
  shows "line_ok (join [comma] xs)"
proof -
  have "join [comma] xs \<noteq> []" using assms by (intro join_nonempty) (auto simp: token_ok_def)
  moreover have "nl \<notin> set (join [comma] xs)"
    using join_set[of "[comma]" xs] assms(2) by (auto simp: token_ok_def nl_def comma_def)
  ultimately show ?thesis by (simp add: line_ok_def)
qed

lemma calm_line: "line_ok s \<Longrightarrow> calm s \<and> hd s \<noteq> nl"
proof -
  assume a: "line_ok s"
  have "successively (\<lambda>a b. \<not> (a = nl \<and> b = nl)) s"
    using a unfolding line_ok_def
  proof (induction s rule: induct_list012)
    case (3 x y zs)
    then show ?case by auto
  qed simp_all
  moreover have "last s \<noteq> nl" "hd s \<noteq> nl" using a by (auto simp: line_ok_def) (metis last_in_set hd_in_set)+
  ultimately show ?thesis using a by (simp add: calm_def line_ok_def)
qed

lemma calm_join_lines:
  "lines \<noteq> [] \<Longrightarrow> \<forall>s \<in> set lines. line_ok s \<Longrightarrow>
   calm (join [nl] lines) \<and> hd (join [nl] lines) \<noteq> nl"
proof (induction "[nl]" lines rule: join.induct)
  case 1
  then show ?case by simp
next
  case (2 x)
  then show ?case by (simp add: calm_line)
next
  case (3 x y ys)
  have x: "calm x" "hd x \<noteq> nl" "x \<noteq> []" using calm_line[of x] "3.prems"(2) by (simp_all add: line_ok_def)
  have r: "calm (join [nl] (y # ys))" "hd (join [nl] (y # ys)) \<noteq> nl"
    using "3.hyps" "3.prems"(2) by simp_all
  let ?r = "join [nl] (y # ys)"
  have rne: "?r \<noteq> []" using r(1) by (simp add: calm_def)
  have "successively (\<lambda>a b. \<not> (a = nl \<and> b = nl)) (x @ [nl] @ ?r)"
    using x r rne by (simp add: calm_def successively_append_iff successively_Cons)
  moreover have "last (x @ [nl] @ ?r) \<noteq> nl" using r(1) rne by (simp add: calm_def)
  moreover have "hd (x @ [nl] @ ?r) \<noteq> nl" using x by simp
  ultimately show ?case by (simp add: calm_def)
qed

lemma split_join_lines:
  assumes "lines \<noteq> []" "\<forall>s \<in> set lines. nl \<notin> set s"
  shows "split [nl] (join [nl] lines) = lines"
  using assms by (rule split_join_char)

lemma split_blocks:
  assumes "\<forall>b \<in> set (x # xs). calm b"
  shows "split [nl, nl] (x @ concat (map ((@) [nl, nl]) xs)) = x # xs"
  using assms by (intro split_concat) (auto intro: no_occ_calm)

lemma digit_char_facts:
  assumes "k < 10"
  shows "is_digit (digit_char k)" "digit_value (digit_char k) = k" "\<not> is_space (digit_char k)"
    "digit_char k \<noteq> CHR ''-''" "digit_char k \<noteq> CHR ''+''" "digit_char k \<noteq> CHR ''_''"
    "digit_char k \<noteq> comma" "digit_char k \<noteq> nl"
proof -
  from assms have "k = 0 \<or> k = 1 \<or> k = 2 \<or> k = 3 \<or> k = 4 \<or> k = 5 \<or> k = 6 \<or> k = 7 \<or> k = 8 \<or> k = 9"
    by arith
  then show "is_digit (digit_char k)" "digit_value (digit_char k) = k" "\<not> is_space (digit_char k)"
    "digit_char k \<noteq> CHR ''-''" "digit_char k \<noteq> CHR ''+''" "digit_char k \<noteq> CHR ''_''"
    "digit_char k \<noteq> comma" "digit_char k \<noteq> nl"
    by (auto simp: digit_char_def is_digit_def digit_value_def is_space_def comma_def nl_def)
qed

lemma str_nat_digits: "str_nat n \<noteq> [] \<and> list_all plain_digit (str_nat n)"
proof (induction n rule: str_nat.induct)
  case (1 n)
  show ?case
  proof (cases "n < 10")
    case True
    then show ?thesis by (subst str_nat.simps, subst (2) str_nat.simps) (auto simp: plain_digit_def)
  next
    case False
    have "n mod 10 < 10" by simp
    then have "plain_digit (digit_char (n mod 10))" unfolding plain_digit_def by blast
    then show ?thesis using False "1.IH"
      by (subst str_nat.simps, subst (2) str_nat.simps) simp
  qed
qed

lemma digits_value_snoc:
  "c \<noteq> CHR ''_'' \<Longrightarrow> digits_value (s @ [c]) = 10 * digits_value s + digit_value c"
  by (simp add: digits_value_def)

lemma digits_value_str_nat: "digits_value (str_nat n) = n"
proof (induction n rule: str_nat.induct)
  case (1 n)
  show ?case
  proof (cases "n < 10")
    case True
    then show ?thesis
      by (subst str_nat.simps) (simp add: digits_value_def digit_char_facts)
  next
    case False
    have m: "n mod 10 < 10" by simp
    show ?thesis using False "1.IH" digit_char_facts(2,6)[OF m]
      by (subst str_nat.simps) (simp add: digits_value_snoc)
  qed
qed

lemma digits_ok_plain: "s \<noteq> [] \<Longrightarrow> list_all plain_digit s \<Longrightarrow> digits_ok s"
proof (induction s rule: digits_ok.induct)
  case 1
  then show ?case by simp
next
  case (2 c)
  then show ?case by (auto simp: plain_digit_def digit_char_facts)
next
  case (3 c d r)
  then have "d \<noteq> CHR ''_''" "is_digit c" by (auto simp: plain_digit_def digit_char_facts)
  then show ?case using 3 by simp
qed

lemma strip_id:
  assumes "s \<noteq> []" "\<not> is_space (hd s)" "\<not> is_space (last s)"
  shows "strip s = s"
proof -
  have a: "dropWhile is_space s = s" using assms(1,2) by (cases s) auto
  have "dropWhile is_space (rev s) = rev s"
    using assms(1,3) by (cases "rev s") (auto simp: last_rev[symmetric] hd_rev)
  then show ?thesis by (simp add: strip_def a)
qed

lemma py_int_str_nat: "py_int (str_nat n) = Inr (int n)"
proof -
  from str_nat_digits[of n] obtain c r where s: "str_nat n = c # r" "list_all plain_digit (c # r)"
    by (cases "str_nat n") auto
  have pd: "plain_digit (hd (c # r))" "plain_digit (last (c # r))"
    using s(2) by (auto simp: list_all_iff)
  have "strip (c # r) = c # r"
    using pd by (intro strip_id) (auto simp: plain_digit_def digit_char_facts)
  moreover have "c \<noteq> CHR ''-''" "c \<noteq> CHR ''+''"
    using pd(1) by (auto simp: plain_digit_def digit_char_facts)
  moreover have "digits_ok (c # r)" using s(2) by (intro digits_ok_plain) simp_all
  moreover have "digits_value (c # r) = n" using digits_value_str_nat[of n] s(1) by simp
  ultimately show ?thesis by (simp add: py_int_def s(1))
qed

lemma plain_digit_not_sep: "plain_digit c \<Longrightarrow> c \<noteq> nl \<and> c \<noteq> comma"
  by (auto simp: plain_digit_def digit_char_facts)

lemma token_ok_str_nat: "token_ok (str_nat n)"
  using str_nat_digits[of n] plain_digit_not_sep
  unfolding token_ok_def list_all_iff by blast

lemma token_ok_activation_name: "token_ok (activation_name f)"
  by (cases f) (simp_all add: token_ok_def nl_def comma_def)

lemma token_ok_class_name: "token_ok (class_name obj)"
proof (cases obj)
  case (Activation f)
  then show ?thesis by (simp add: token_ok_activation_name)
next
  case (Loss f)
  then show ?thesis by (cases f) (simp_all add: token_ok_def nl_def comma_def)
qed (simp_all add: token_ok_def nl_def comma_def)

lemma get_class_by_name_activation:
  "get_class_by_name (activation_name f) = Inr (Activation f)"
  by (cases f) (simp_all add: get_class_by_name_def)

lemma get_class_by_name_class_name: "get_class_by_name (class_name obj) = Inr obj"
proof (cases obj)
  case (Activation f)
  then show ?thesis by (simp add: get_class_by_name_activation)
next
  case (Loss f)
  then show ?thesis by (cases f) (simp_all add: get_class_by_name_def)
qed (simp_all add: get_class_by_name_def)

lemma map_err_map:
  "\<forall>x \<in> set xs. f (g x) = Inr (h x) \<Longrightarrow> map_err f (map g xs) = Inr (map h xs)"
  by (induction xs) simp_all

lemma prints_back_token: "prints_back str flt x \<Longrightarrow> token_ok (str x)"
  by (simp add: prints_back_def token_ok_def)

lemma save_layers_text:
  "\<forall>l \<in> set ls. weights l \<noteq> None \<and> biases l \<noteq> None \<Longrightarrow>
   save_layers str c ls = (c @ concat (map (\<lambda>l. [nl, nl] @ layer_text str l) ls), None)"
proof (induction ls arbitrary: c)
  case Nil
  show ?case by simp
next
  case (Cons l ls)
  from Cons.prems obtain b w where bw: "biases l = Some b" "weights l = Some w" by auto
  have t: "layer_text str l =
        join [comma] (map str b) @ concat (map (\<lambda>ws. nl # join [comma] (map str ws)) w)"
    by (simp add: layer_text_def bw join_concat o_def)
  show ?case using Cons.prems bw by (simp add: Cons.IH t)
qed

lemma init_weights_success: "0 < n \<Longrightarrow> \<exists>w g'. init_weights f g n c = Inr (w, g')"
  by (cases f) (auto simp: case_prod_unfold)

lemma Layer_init_success:
  assumes "0 < n"
  shows "\<exists>l g'. Layer_init g (int n) (Some p) f = Inr (l, g')
           \<and> neuron_count l = n \<and> activation_func l = f"
proof -
  from init_weights_success[OF assms, of f g "neuron_count p"] obtain w g' where
    "init_weights f g n (neuron_count p) = Inr (w, g')" by blast
  then show ?thesis by (simp add: Layer_init_def)
qed

lemma build_layers_success:
  "list_all (\<lambda>n. 0 < n) ns \<Longrightarrow> length fs = length ns \<Longrightarrow>
   \<exists>ls g'. build_layers g p (map int ns) (map Activation fs) = Inr (ls, g')
      \<and> map neuron_count ls = ns \<and> map activation_func ls = fs"
proof (induction ns arbitrary: g p fs)
  case Nil
  then show ?case by simp
next
  case (Cons n ns)
  from Cons.prems(2) obtain f fs' where fs: "fs = f # fs'" "length fs' = length ns"
    by (cases fs) auto
  from Cons.prems(1) have n: "0 < n" and ns: "list_all (\<lambda>n. 0 < n) ns" by simp_all
  from Layer_init_success[OF n, of g p f] obtain l g1 where
    l: "Layer_init g (int n) (Some p) f = Inr (l, g1)" "neuron_count l = n" "activation_func l = f"
    by blast
  from Cons.IH[OF ns fs(2), of g1 l] obtain ls g' where
    ls: "build_layers g1 l (map int ns) (map Activation fs') = Inr (ls, g')"
    "map neuron_count ls = ns" "map activation_func ls = fs'"
    by blast
  show ?case using l ls fs(1) by simp
qed

lemma NeuralNetwork_init_success:
  assumes "list_all (\<lambda>n. 0 < n) (n0 # ns)" "length fs = length ns" "ns \<noteq> []"
  shows "\<exists>l0 ls g'. NeuralNetwork_init g (map int (n0 # ns)) (Several (map Activation fs)) loss
             = Inr (\<lparr>loss_func = loss, layers = l0 # ls, cost = - 1\<rparr>, g')
           \<and> neuron_count l0 = n0 \<and> activation_func l0 = default_activation
           \<and> weights l0 = None \<and> biases l0 = None
           \<and> map neuron_count ls = ns \<and> map activation_func ls = fs
           \<and> wf_network \<lparr>loss_func = loss, layers = l0 # ls, cost = - 1\<rparr>"
proof -
  define l0 where "l0 = \<lparr>neuron_count = n0, activation_func = default_activation, weights = None,
     biases = None, z = replicate n0 0, activations = replicate n0 0,
     a_grad = None, z_grad = None, w_grad = None\<rparr>"
  have i0: "Layer_init g (int n0) None default_activation = Inr (l0, g)"
    by (simp add: Layer_init_def l0_def)
  from assms(1) have pos: "0 < n0" "list_all (\<lambda>n. 0 < n) ns" by simp_all
  from build_layers_success[OF pos(2) assms(2), of g l0] obtain ls g' where
    ls: "build_layers g l0 (map int ns) (map Activation fs) = Inr (ls, g')"
    "map neuron_count ls = ns" "map activation_func ls = fs"
    by blast
  let ?nn = "\<lparr>loss_func = loss, layers = l0 # ls, cost = - 1\<rparr>"
  have len: "\<not> length (n0 # ns) < 2" using assms(3) by (cases ns) auto
  have init: "NeuralNetwork_init g (map int (n0 # ns)) (Several (map Activation fs)) loss
                = Inr (?nn, g')"
    using i0 ls(1) len assms(2) by (simp add: NeuralNetwork_init_def)
  from build_layers_owns[OF ls(1)] have own: "owns_parameters l0 ls"
    and buf: "list_all (\<lambda>l. length (z l) = neuron_count l \<and> length (activations l) = neuron_count l) ls"
    by simp_all
  have "list_all (\<lambda>l. 0 < neuron_count l) ls"
    using pos(2) ls(2) by (simp add: list_all_iff) (metis (no_types) image_eqI list.set_map)
  with buf have "list_all buffers_ok ls" by (simp add: list_all_iff buffers_ok_def)
  moreover have "buffers_ok l0" using pos(1) by (simp add: buffers_ok_def l0_def)
  ultimately have "wf_network ?nn"
    using own by (simp add: wf_network_def shape_invariant_def l0_def)
  then show ?thesis using init ls(2,3) by (auto simp: l0_def)
qed

lemma parse_floats_printed:
  assumes "xs \<noteq> []" "\<forall>x \<in> set xs. prints_back str flt x"
  shows "parse_floats flt (join [comma] (map str xs)) = Inr xs"
proof -
  have "split [comma] (join [comma] (map str xs)) = map str xs"
    using assms by (intro split_join_char) (auto simp: prints_back_def)
  moreover have "map_err (\<lambda>s. case flt s of None \<Rightarrow> Inl (ValueError invalid_float_msg)
                               | Some x \<Rightarrow> Inr x) (map str xs) = Inr (map (\<lambda>x. x) xs)"
    using assms(2) by (intro map_err_map) (simp add: prints_back_def)
  ultimately show ?thesis by (simp add: parse_floats_def)
qed

lemma load_rows:
  "weights l = Some (rows0 @ old) \<Longrightarrow> list_all2 (\<lambda>r q. length r = length q) rows old \<Longrightarrow>
   list_all2 (\<lambda>line r. parse_floats flt line = Inr r) lines rows \<Longrightarrow>
   load_lines flt l (Suc (length rows0)) lines = Inr (l\<lparr>weights := Some (rows0 @ rows)\<rparr>)"
proof (induction lines arbitrary: l rows0 old rows)
  case Nil
  then show ?case by simp
next
  case (Cons line lines)
  from Cons.prems(3) obtain r rows' where rows: "rows = r # rows'"
    "parse_floats flt line = Inr r" "list_all2 (\<lambda>line r. parse_floats flt line = Inr r) lines rows'"
    by (auto simp: list_all2_Cons1)
  from Cons.prems(2) rows(1) obtain q old' where old: "old = q # old'" "length r = length q"
    "list_all2 (\<lambda>r q. length r = length q) rows' old'"
    by (auto simp: list_all2_Cons1)
  have sr: "set_row (rows0 @ q # old') (length rows0) r = Inr (rows0 @ r # old')"
    using old(2) by (simp add: set_row_def nth_append)
  let ?l = "l\<lparr>weights := Some ((rows0 @ [r]) @ old')\<rparr>"
  have "load_lines flt ?l (Suc (length (rows0 @ [r]))) lines
          = Inr (?l\<lparr>weights := Some ((rows0 @ [r]) @ rows')\<rparr>)"
    by (rule Cons.IH[OF _ old(3) rows(3)]) simp
  then show ?case using Cons.prems(1) rows(1,2) old(1) sr by simp
qed

lemma load_lines_layer:
  assumes "weights l = Some old" "list_all2 (\<lambda>r q. length r = length q) w old"
    "parse_floats flt bline = Inr b"
    "list_all2 (\<lambda>line r. parse_floats flt line = Inr r) wlines w"
  shows "load_lines flt l 0 (bline # wlines) = Inr (l\<lparr>biases := Some b, weights := Some w\<rparr>)"
proof -
  have "load_lines flt (l\<lparr>biases := Some b\<rparr>) (Suc (length ([] :: mat))) wlines
          = Inr (l\<lparr>biases := Some b\<rparr>\<lparr>weights := Some ([] @ w)\<rparr>)"
    by (rule load_rows[OF _ assms(2) assms(4)]) (simp add: assms(1))
  then show ?thesis using assms(3) by simp
qed

lemma savable_lines:
  assumes "savable str flt t"
  obtains b w where "biases t = Some b" "weights t = Some w"
    "layer_text str t = join [nl] (join [comma] (map str b) # map (\<lambda>ws. join [comma] (map str ws)) w)"
    "parse_floats flt (join [comma] (map str b)) = Inr b"
    "list_all2 (\<lambda>line r. parse_floats flt line = Inr r) (map (\<lambda>ws. join [comma] (map str ws)) w) w"
    "\<forall>s \<in> set (join [comma] (map str b) # map (\<lambda>ws. join [comma] (map str ws)) w). line_ok s"
proof -
  from assms obtain b w where bw: "biases t = Some b" "weights t = Some w" "b \<noteq> []"
    "\<forall>r \<in> set w. r \<noteq> []"
    by (auto simp: savable_def list_all_iff split: option.splits)
  have pb: "\<forall>x \<in> set b. prints_back str flt x" "\<forall>r \<in> set w. \<forall>x \<in> set r. prints_back str flt x"
    using assms bw by (auto simp: savable_def layer_numbers_def list_all_iff)
  have 1: "layer_text str t = join [nl] (join [comma] (map str b) # map (\<lambda>ws. join [comma] (map str ws)) w)"
    by (simp add: layer_text_def bw)
  have 2: "parse_floats flt (join [comma] (map str b)) = Inr b"
    using bw(3) pb(1) by (rule parse_floats_printed)
  have 3: "list_all2 (\<lambda>line r. parse_floats flt line = Inr r) (map (\<lambda>ws. join [comma] (map str ws)) w) w"
    using bw(4) pb(2) by (auto simp: list_all2_conv_all_nth intro!: parse_floats_printed)
  have lb: "line_ok (join [comma] (map str b))"
    using bw(3) pb(1) by (intro join_comma_line_ok) (auto dest: prints_back_token)
  have lw: "line_ok (join [comma] (map str r))" if "r \<in> set w" for r
    using bw(4) pb(2) that by (intro join_comma_line_ok) (auto dest: prints_back_token)
  have 4: "\<forall>s \<in> set (join [comma] (map str b) # map (\<lambda>ws. join [comma] (map str ws)) w). line_ok s"
    using lb lw by auto
  show ?thesis using that[OF bw(1,2) 1 2 3 4] .
qed

lemma load_block_layer:
  assumes "savable str flt t" "weights c = Some old"
    "rel_option (list_all2 (\<lambda>r q. length r = length q)) (weights t) (Some old)"
  shows "load_block flt (pre @ c # cur) (length pre) (split [nl] (layer_text str t))
           = Inr (pre @ loaded c t # cur)"
proof -
  from assms(1) obtain b w where bw: "biases t = Some b" "weights t = Some w"
    "layer_text str t = join [nl] (join [comma] (map str b) # map (\<lambda>ws. join [comma] (map str ws)) w)"
    "parse_floats flt (join [comma] (map str b)) = Inr b"
    "list_all2 (\<lambda>line r. parse_floats flt line = Inr r) (map (\<lambda>ws. join [comma] (map str ws)) w) w"
    "\<forall>s \<in> set (join [comma] (map str b) # map (\<lambda>ws. join [comma] (map str ws)) w). line_ok s"
    by (rule savable_lines)
  let ?lines = "join [comma] (map str b) # map (\<lambda>ws. join [comma] (map str ws)) w"
  have sp: "split [nl] (layer_text str t) = ?lines"
    unfolding bw(3) using bw(6) by (intro split_join_lines) (auto simp: line_ok_def)
  have sh: "list_all2 (\<lambda>r q. length r = length q) w old" using assms(3) bw(2) by simp
  have "load_lines flt c 0 ?lines = Inr (c\<lparr>biases := Some b, weights := Some w\<rparr>)"
    by (rule load_lines_layer[OF assms(2) sh bw(4) bw(5)])
  then show ?thesis
    unfolding sp by (simp add: load_block_def nth_append loaded_def bw(1,2) del: load_lines.simps)
qed

lemma load_blocks_layers:
  "list_all2 (\<lambda>c t. savable str flt t \<and> weights c \<noteq> None
       \<and> rel_option (list_all2 (\<lambda>r q. length r = length q)) (weights t) (weights c)) cur tgt \<Longrightarrow>
   load_blocks flt (pre @ cur) (length pre) (map (layer_text str) tgt)
     = Inr (pre @ map2 loaded cur tgt)"
proof (induction cur tgt arbitrary: pre rule: list_all2_induct)
  case Nil
  show ?case by simp
next
  case (Cons c cur t tgt)
  from Cons.hyps(1) obtain old where old: "weights c = Some old" by auto
  have b: "load_block flt (pre @ c # cur) (length pre) (split [nl] (layer_text str t))
           = Inr (pre @ loaded c t # cur)"
    using Cons.hyps(1) old by (intro load_block_layer) auto
  have "load_blocks flt ((pre @ [loaded c t]) @ cur) (length (pre @ [loaded c t]))
          (map (layer_text str) tgt) = Inr ((pre @ [loaded c t]) @ map2 loaded cur tgt)"
    by (rule Cons.IH)
  then show ?case using b by simp
qed

lemma wf_layers_nonempty_params:
  "owns_parameters p ls \<Longrightarrow> list_all buffers_ok (p # ls) \<Longrightarrow>
   list_all (\<lambda>l. case (biases l, weights l) of
                    (Some b, Some w) \<Rightarrow> b \<noteq> [] \<and> list_all (\<lambda>r. r \<noteq> []) w
                  | _ \<Rightarrow> False) ls"
proof (induction ls arbitrary: p)
  case Nil
  show ?case by simp
next
  case (Cons l ls)
  from Cons.prems(1) obtain w b where wb: "weights l = Some w" "biases l = Some b"
    "has_shape w (neuron_count l) (neuron_count p)" "length b = neuron_count l"
    "owns_parameters l ls"
    by (auto split: option.splits)
  from Cons.prems(2) have bp: "buffers_ok p" "buffers_ok l"
    and rest: "list_all buffers_ok (l # ls)"
    by simp_all
  from bp have pos: "0 < neuron_count p" "0 < neuron_count l"
    by (simp_all add: buffers_ok_def)
  have "b \<noteq> []" using wb(4) pos(2) by auto
  moreover have "list_all (\<lambda>r. r \<noteq> []) w"
    using wb(3) pos(1) by (auto simp: has_shape_def list_all_iff)
  ultimately show ?case using wb(1,2) Cons.IH[OF wb(5) rest] by simp
qed

lemma same_shapes_by_counts:
  "owns_parameters p ls \<Longrightarrow> owns_parameters p' ls' \<Longrightarrow> neuron_count p = neuron_count p' \<Longrightarrow>
   map neuron_count ls = map neuron_count ls' \<Longrightarrow>
   list_all2 (\<lambda>c t. weights c \<noteq> None
       \<and> rel_option (list_all2 (\<lambda>r q. length r = length q)) (weights t) (weights c)) ls' ls"
proof (induction ls arbitrary: p p' ls')
  case Nil
  then show ?case by simp
next
  case (Cons l ls)
  from Cons.prems(4) obtain l' ms where ls': "ls' = l' # ms" "neuron_count l = neuron_count l'"
    "map neuron_count ls = map neuron_count ms"
    by (cases ls') auto
  from Cons.prems(1) obtain w where w: "weights l = Some w"
    "has_shape w (neuron_count l) (neuron_count p)" "owns_parameters l ls"
    by (auto split: option.splits)
  from Cons.prems(2) ls'(1) obtain w' where w': "weights l' = Some w'"
    "has_shape w' (neuron_count l') (neuron_count p')" "owns_parameters l' ms"
    by (auto split: option.splits)
  have "has_shape w' (neuron_count l) (neuron_count p)"
    using w'(2) ls'(2) Cons.prems(3) by simp
  from has_shape_rows[OF this w(2)]
  have "list_all2 (\<lambda>r q. length r = length q) w w'" by (simp add: list_all2_conv_all_nth)
  moreover have "list_all2 (\<lambda>c t. weights c \<noteq> None
       \<and> rel_option (list_all2 (\<lambda>r q. length r = length q)) (weights t) (weights c)) ms ls"
    by (rule Cons.IH[OF w(3) w'(3) ls'(2) ls'(3)])
  ultimately show ?case using ls'(1) w(1) w'(1) by simp
qed

lemma list_all2_conj:
  "list_all2 P xs ys \<Longrightarrow> list_all Q ys \<Longrightarrow> list_all2 (\<lambda>x y. Q y \<and> P x y) xs ys"
  by (induction xs ys rule: list_all2_induct) simp_all

lemma calm_layer_text: "savable str flt t \<Longrightarrow> calm (layer_text str t)"
proof -
  assume "savable str flt t"
  then obtain b w where
    "layer_text str t = join [nl] (join [comma] (map str b) # map (\<lambda>ws. join [comma] (map str ws)) w)"
    "\<forall>s \<in> set (join [comma] (map str b) # map (\<lambda>ws. join [comma] (map str ws)) w). line_ok s"
    by (rule savable_lines)
  then show ?thesis using calm_join_lines[of "join [comma] (map str b) # map (\<lambda>ws. join [comma] (map str ws)) w"]
    by simp
qed

lemma loaded_same_layer:
  "list_all2 (\<lambda>c t. neuron_count c = neuron_count t \<and> activation_func c = activation_func t) cs ts
   \<Longrightarrow> list_all2 same_layer ts (map2 loaded cs ts)"
  by (induction cs ts rule: list_all2_induct) (simp_all add: same_layer_def loaded_def)

lemma loaded_buffer: "buffers_ok c \<Longrightarrow> buffers_ok (loaded c t)"
  by (simp add: buffers_ok_def loaded_def)

lemma loaded_buffers:
  "length cs = length ts \<Longrightarrow> list_all buffers_ok cs \<Longrightarrow> list_all buffers_ok (map2 loaded cs ts)"
  by (induction cs ts rule: list_induct2) (simp_all add: loaded_buffer)

lemma predict_wrong_length:
  assumes "wf_network a" "length x \<noteq> neuron_count (hd (layers a))"
  shows "snd (predict a x) = Inl (ValueError input_length_msg)"
proof -
  from assms(1) obtain l0 ls where l: "layers a = l0 # ls"
    by (cases "layers a") (auto simp: wf_network_def)
  have "length (activations l0) = neuron_count l0"
    using assms(1) l by (simp add: wf_network_def buffers_ok_def)
  then show ?thesis using assms(2) l by (simp add: predict_def)
qed

lemma map_eq_list_all2:
  "map f xs = map f ys \<Longrightarrow> map g xs = map g ys \<Longrightarrow>
   list_all2 (\<lambda>x y. f x = f y \<and> g x = g y) xs ys"
proof (induction xs arbitrary: ys)
  case Nil
  then show ?case by simp
next
  case (Cons x xs)
  then obtain y ys' where "ys = y # ys'" by (cases ys) auto
  with Cons show ?case by auto
qed

lemma save_load_layers:
  assumes wf: "wf_network nn" and two: "2 \<le> length (layers nn)"
    and act0: "activation_func (hd (layers nn)) = default_activation"
    and pb: "numbers_print_back str flt nn"
  shows "snd (save str fs nn path) = None
         \<and> (\<exists>nn' g'. load flt (fst (save str fs nn path)) g path = Inr (Some nn', g')
               \<and> same_parameters nn nn' \<and> loss_func nn' = loss_func nn \<and> wf_network nn')"
proof -
  from two obtain l0 l1 ls' where l: "layers nn = l0 # l1 # ls'"
    by (cases "layers nn"; cases "tl (layers nn)") auto
  define ls where "ls = l1 # ls'"
  have lay: "layers nn = l0 # ls" and lsne: "ls \<noteq> []" by (simp_all add: l ls_def)
  have own: "owns_parameters l0 ls" and w0: "weights l0 = None" "biases l0 = None"
    and buf: "list_all buffers_ok (l0 # ls)"
    using wf lay by (simp_all add: wf_network_def shape_invariant_def)
  have pos: "list_all (\<lambda>n. 0 < n) (neuron_count l0 # map neuron_count ls)"
    using buf by (simp add: list_all_iff buffers_ok_def)
  \<comment> \<open>every layer after the first can be written and read back\<close>
  have ne: "list_all (\<lambda>l. case (biases l, weights l) of
                    (Some b, Some w) \<Rightarrow> b \<noteq> [] \<and> list_all (\<lambda>r. r \<noteq> []) w
                  | _ \<Rightarrow> False) ls"
    by (rule wf_layers_nonempty_params[OF own buf])
  have sav: "list_all (savable str flt) ls"
    using ne pb lay by (simp add: savable_def numbers_print_back_def list_all_iff)
  have params: "\<forall>l \<in> set ls. weights l \<noteq> None \<and> biases l \<noteq> None"
    using ne by (auto simp: list_all_iff split: option.splits)
  \<comment> \<open>the text that \<open>save\<close> writes\<close>
  define cl where "cl = join [comma] (map (\<lambda>l. str_nat (neuron_count l)) (l0 # ls))"
  define al where "al = join [comma] (map (\<lambda>l. activation_name (activation_func l)) ls)"
  define ll where "ll = class_name (loss_func nn)"
  define header where "header = join [nl] [cl, al, ll]"
  define content where "content = header @ concat (map ((@) [nl, nl]) (map (layer_text str) ls))"
  have sv: "save str fs nn path = (fs(path \<mapsto> content), None)"
    using save_layers_text[OF params, of str "cl @ [nl] @ al @ [nl] @ ll"]
    by (simp add: save_def lay cl_def al_def ll_def header_def content_def o_def)
  \<comment> \<open>splitting the text into blocks and the header into lines\<close>
  have lok: "\<forall>s \<in> set [cl, al, ll]. line_ok s"
  proof -
    have "line_ok cl" unfolding cl_def
      by (intro join_comma_line_ok) (auto simp: token_ok_str_nat)
    moreover have "line_ok al" unfolding al_def
      using lsne by (intro join_comma_line_ok) (auto simp: token_ok_activation_name)
    moreover have "line_ok ll" unfolding ll_def
      using token_ok_class_name[of "loss_func nn"] by (simp add: token_ok_def line_ok_def)
    ultimately show ?thesis by simp
  qed
  have "calm header" unfolding header_def using calm_join_lines[OF _ lok] by simp
  moreover have "\<forall>b \<in> set (map (layer_text str) ls). calm b"
    using sav by (auto simp: list_all_iff intro: calm_layer_text)
  ultimately have blocks: "split [nl, nl] content = header # map (layer_text str) ls"
    unfolding content_def by (intro split_blocks) simp
  have hl: "split [nl] header = [cl, al, ll]"
    unfolding header_def using lok by (intro split_join_lines) (auto simp: line_ok_def)
  \<comment> \<open>the header gives back the sizes, the activation functions and the loss\<close>
  have counts: "map_err py_int (split [comma] cl)
                  = Inr (map int (neuron_count l0 # map neuron_count ls))"
  proof -
    have "split [comma] cl = map (\<lambda>l. str_nat (neuron_count l)) (l0 # ls)"
      unfolding cl_def using token_ok_str_nat
      by (intro split_join_char) (auto simp: token_ok_def)
    moreover have "map_err py_int (map (\<lambda>l. str_nat (neuron_count l)) (l0 # ls))
                     = Inr (map (\<lambda>l. int (neuron_count l)) (l0 # ls))"
      by (intro map_err_map) (simp add: py_int_str_nat)
    ultimately show ?thesis by (simp add: o_def)
  qed
  have acts: "map_err get_class_by_name (split [comma] al)
                = Inr (map Activation (map activation_func ls))"
  proof -
    have "split [comma] al = map (\<lambda>l. activation_name (activation_func l)) ls"
      unfolding al_def using lsne token_ok_activation_name
      by (intro split_join_char) (auto simp: token_ok_def)
    moreover have "map_err get_class_by_name (map (\<lambda>l. activation_name (activation_func l)) ls)
                     = Inr (map (\<lambda>l. Activation (activation_func l)) ls)"
      by (intro map_err_map) (simp add: get_class_by_name_activation)
    ultimately show ?thesis by (simp add: o_def)
  qed
  have loss: "get_class_by_name ll = Inr (loss_func nn)"
    by (simp add: ll_def get_class_by_name_class_name)
  from NeuralNetwork_init_success[where fs = "map activation_func ls" and g = g
      and loss = "loss_func nn", OF pos] lsne
  obtain c0 cs g' where init:
    "NeuralNetwork_init g (map int (neuron_count l0 # map neuron_count ls))
       (Several (map Activation (map activation_func ls))) (loss_func nn)
       = Inr (\<lparr>loss_func = loss_func nn, layers = c0 # cs, cost = - 1\<rparr>, g')"
    "neuron_count c0 = neuron_count l0" "activation_func c0 = default_activation"
    "weights c0 = None" "biases c0 = None"
    "map neuron_count cs = map neuron_count ls" "map activation_func cs = map activation_func ls"
    "wf_network \<lparr>loss_func = loss_func nn, layers = c0 # cs, cost = - 1\<rparr>"
    by auto
  let ?nn0 = "\<lparr>loss_func = loss_func nn, layers = c0 # cs, cost = - 1\<rparr>"
  have hd: "load_header g [cl, al, ll] = Inr (?nn0, g')"
    using counts acts loss init(1) by (simp add: load_header_def)
  \<comment> \<open>the blocks overwrite the biases and the rows of the weights\<close>
  have own0: "owns_parameters c0 cs" and buf0: "list_all buffers_ok (c0 # cs)"
    using init(8) by (simp_all add: wf_network_def shape_invariant_def)
  have "list_all2 (\<lambda>c t. weights c \<noteq> None
       \<and> rel_option (list_all2 (\<lambda>r q. length r = length q)) (weights t) (weights c)) cs ls"
    by (rule same_shapes_by_counts[OF own own0 init(2)[symmetric] init(6)[symmetric]])
  from list_all2_conj[OF this sav]
  have "list_all2 (\<lambda>c t. savable str flt t \<and> weights c \<noteq> None
       \<and> rel_option (list_all2 (\<lambda>r q. length r = length q)) (weights t) (weights c)) cs ls"
    by simp
  from load_blocks_layers[OF this, where pre = "[c0]"]
  have lb: "load_blocks flt (c0 # cs) 1 (map (layer_text str) ls) = Inr (c0 # map2 loaded cs ls)"
    by simp
  let ?nn' = "?nn0\<lparr>layers := c0 # map2 loaded cs ls\<rparr>"
  have ld: "load flt (fs(path \<mapsto> content)) g path = Inr (Some ?nn', g')"
    using blocks hl hd lb by (simp add: load_def)
  \<comment> \<open>the loaded network has the parameters of the saved one\<close>
  have len: "length cs = length ls" using init(6) by (metis length_map)
  have "list_all2 (\<lambda>c t. neuron_count c = neuron_count t \<and> activation_func c = activation_func t)
          cs ls"
    using init(6,7) by (rule map_eq_list_all2)
  then have sl: "list_all2 same_layer ls (map2 loaded cs ls)" by (rule loaded_same_layer)
  have s0: "same_layer l0 c0"
    using init(2,3,4,5) w0 act0 lay by (simp add: same_layer_def)
  have sp: "same_parameters nn ?nn'" using s0 sl lay by (simp add: same_parameters_def)
  have sk: "shape_kept nn ?nn'"
    using sp unfolding shape_kept_def same_parameters_def
    by (rule list_all2_mono) (rule same_layer_same_shape)
  have "shape_invariant nn" using wf by (simp add: wf_network_def)
  with sk have "shape_invariant ?nn'" by (rule shape_invariant_kept)
  moreover have "list_all buffers_ok (c0 # map2 loaded cs ls)"
    using buf0 loaded_buffers[OF len] by simp
  ultimately have wf': "wf_network ?nn'" by (simp add: wf_network_def)
  have "loss_func ?nn' = loss_func nn" by simp
  with ld sp wf' have "\<exists>nn' g'. load flt (fs(path \<mapsto> content)) g path = Inr (Some nn', g')
      \<and> same_parameters nn nn' \<and> loss_func nn' = loss_func nn \<and> wf_network nn'"
    by blast
  then show ?thesis by (simp add: sv)
qed

text \<open>
  Claim C2. Take a well-formed network of at least two layers whose input layer carries
  the default activation (as every constructed network does) and whose weights and biases
  print back. Then \<open>save\<close> raises nothing, and \<open>load\<close> from the same path returns a network
  with the same layer sizes, the same activation functions, the same weights and biases
  and the same loss function; \<open>predict\<close> gives the same result on it as on the original,
  for every input.
\<close>

theorem save_load_round_trip:
  assumes "wf_network nn" and "2 \<le> length (layers nn)"
    and "activation_func (hd (layers nn)) = default_activation"
    and "numbers_print_back str flt nn"
  shows "snd (save str fs nn path) = None
         \<and> (\<exists>nn' g'. load flt (fst (save str fs nn path)) g path = Inr (Some nn', g')
               \<and> same_parameters nn nn' \<and> loss_func nn' = loss_func nn
               \<and> (\<forall>x. snd (predict nn' x) = snd (predict nn x)))"
proof -
  from save_load_layers[OF assms, of fs path g] obtain nn' g' where
    s: "snd (save str fs nn path) = None"
    and l: "load flt (fst (save str fs nn path)) g path = Inr (Some nn', g')"
    and sp: "same_parameters nn nn'" and lf: "loss_func nn' = loss_func nn"
    and wf': "wf_network nn'"
    by blast
  have "snd (predict nn' x) = snd (predict nn x)" for x
  proof (cases "length x = neuron_count (hd (layers nn))")
    case True
    then show ?thesis by (rule predict_same_parameters[OF assms(1) wf' sp])
  next
    case False
    from sp have "neuron_count (hd (layers nn')) = neuron_count (hd (layers nn))"
      using assms(1) wf'
      by (cases "layers nn"; cases "layers nn'")
         (auto simp: same_parameters_def same_layer_def wf_network_def)
    with False have "length x \<noteq> neuron_count (hd (layers nn'))" by simp
    from predict_wrong_length[OF wf' this] predict_wrong_length[OF assms(1) False]
    show ?thesis by simp
  qed
  with s l sp lf show ?thesis by blast
qed

lemma example_numbers_print_back: "numbers_print_back example_str example_flt example_network"
  by (simp add: numbers_print_back_def example_network_def example_input_layer_def
      example_hidden_layer_def example_output_layer_def layer_numbers_def prints_back_def
      example_str_def example_flt_def nl_def comma_def)

lemma example_save:
  "save example_str Map.empty example_network ''model.ai'' = ([''model.ai'' \<mapsto> example_file], None)"
  by (simp add: save_def example_network_def example_input_layer_def
      example_hidden_layer_def example_output_layer_def example_str_def example_file_def
      str_nat.simps[of 2] str_nat.simps[of 1] str_nat.simps[of "Suc 0"] digit_char_def
      comma_def)

theorem save_load_round_trip_witness:
  "wf_network example_network \<and> 2 \<le> length (layers example_network)
   \<and> activation_func (hd (layers example_network)) = default_activation
   \<and> numbers_print_back example_str example_flt example_network
   \<and> save example_str Map.empty example_network ''model.ai''
       = ([''model.ai'' \<mapsto> example_file], None)
   \<and> (\<exists>nn' g'. load example_flt [''model.ai'' \<mapsto> example_file] (\<lambda>k. 1) ''model.ai''
                   = Inr (Some nn', g')
          \<and> same_parameters example_network nn' \<and> loss_func nn' = loss_func example_network
          \<and> (\<forall>x. snd (predict nn' x) = snd (predict example_network x)))"
proof -
  have h: "2 \<le> length (layers example_network)"
    "activation_func (hd (layers example_network)) = default_activation"
    by (simp_all add: example_network_def example_input_layer_def default_activation_def)
  from save_load_round_trip
    [OF example_network_wf h example_numbers_print_back, of Map.empty "''model.ai''" "\<lambda>k. 1"]
  show ?thesis
    using example_network_wf h example_numbers_print_back by (simp add: example_save)
qed

end
